theory Spec2Isabelle
  imports Complex_Main
begin

section \<open>Python values used by the services\<close>

text \<open>
  The services are Python modules built on pandas data frames. Exceptions are values of
  \<open>py_error\<close>; a call that may raise returns \<open>py_error + 'a\<close> with \<open>Inl\<close> the exception.
  A Python \<open>str\<close> is a \<open>string\<close> whose characters are code points below 256.
\<close>

datatype py_error =
    AttributeError | TypeError | ValueError | KeyError | OverflowError
  | RuntimeError | HTTPException nat | OtherError

text \<open>\<open>str.isspace\<close> on the code points below 256.\<close>

definition is_space :: "char \<Rightarrow> bool" where
  "is_space c =
     (let n = (of_char c :: int)
      in (9 \<le> n \<and> n \<le> 13) \<or> (28 \<le> n \<and> n \<le> 32) \<or> n = 133 \<or> n = 160)"

definition py_strip :: "string \<Rightarrow> string" where
  "py_strip s = rev (dropWhile is_space (rev (dropWhile is_space s)))"

text \<open>\<open>str.lower\<close> on the code points below 256.\<close>

definition lower_char :: "char \<Rightarrow> char" where
  "lower_char c =
     (let n = (of_char c :: int)
      in if (65 \<le> n \<and> n \<le> 90) \<or> (192 \<le> n \<and> n \<le> 222 \<and> n \<noteq> 215)
         then char_of (n + 32) else c)"

definition py_lower :: "string \<Rightarrow> string" where
  "py_lower s = map lower_char s"

text \<open>\<open>s.split(c, 1)\<close> for a string that contains \<open>c\<close>: the text before the first
  occurrence and the text after it.\<close>

definition split_first :: "char \<Rightarrow> string \<Rightarrow> string \<times> string" where
  "split_first c s = (takeWhile (\<lambda>x. x \<noteq> c) s, tl (dropWhile (\<lambda>x. x \<noteq> c) s))"

text \<open>\<open>s.split(c)\<close>: every maximal piece between occurrences of \<open>c\<close>; never empty.\<close>

fun py_split :: "char \<Rightarrow> string \<Rightarrow> string list" where
  "py_split c [] = [[]]"
| "py_split c (x # xs) =
     (if x = c then [] # py_split c xs
      else (case py_split c xs of
              [] \<Rightarrow> [[x]]
            | p # ps \<Rightarrow> (x # p) # ps))"

definition endswith :: "string \<Rightarrow> string \<Rightarrow> bool" where
  "endswith s suffix = (length suffix \<le> length s \<and> drop (length s - length suffix) s = suffix)"

subsection \<open>Dictionaries\<close>

text \<open>
  A Python \<open>dict\<close> keeps its keys in insertion order: an association list with distinct
  keys. Assigning to a key that is present replaces the value where it stands; a new key
  goes last.
\<close>

type_synonym ('k, 'v) dict = "('k \<times> 'v) list"

fun dict_set :: "('k, 'v) dict \<Rightarrow> 'k \<Rightarrow> 'v \<Rightarrow> ('k, 'v) dict" where
  "dict_set [] k v = [(k, v)]"
| "dict_set ((k', v') # d) k v =
     (if k' = k then (k, v) # d else (k', v') # dict_set d k v)"

definition dict_get :: "('k, 'v) dict \<Rightarrow> 'k \<Rightarrow> 'v option" where
  "dict_get d k = map_of d k"

definition dict_keys :: "('k, 'v) dict \<Rightarrow> 'k list" where
  "dict_keys d = map fst d"

definition dict_values :: "('k, 'v) dict \<Rightarrow> 'v list" where
  "dict_values d = map snd d"

text \<open>\<open>dict(pairs)\<close> and a dict comprehension: the pairs are assigned in order.\<close>

definition dict_of :: "('k \<times> 'v) list \<Rightarrow> ('k, 'v) dict" where
  "dict_of ps = foldl (\<lambda>d (k, v). dict_set d k v) [] ps"

text \<open>\<open>d[k]\<close> raises \<open>KeyError\<close> on a missing key.\<close>

definition dict_getitem :: "('k, 'v) dict \<Rightarrow> 'k \<Rightarrow> py_error + 'v" where
  "dict_getitem d k = (case map_of d k of None \<Rightarrow> Inl KeyError | Some v \<Rightarrow> Inr v)"

subsection \<open>Cells and data frames\<close>

text \<open>
  A float cell is a finite value (the rational it denotes), an infinity or NaN. A cell is
  \<open>None\<close>, a string, an integer, a boolean or a float; pandas counts \<open>None\<close> and NaN as
  missing.
\<close>

datatype pyfloat = Finite rat | PosInf | NegInf | NaN

datatype cell = CNone | CStr string | CInt int | CBool bool | CFloat pyfloat

definition isna :: "cell \<Rightarrow> bool" where
  "isna c = (c = CNone \<or> c = CFloat NaN)"

text \<open>A column label is a string, or an integer (a spreadsheet's numeric header).\<close>

datatype label = LStr string | LInt int

text \<open>
  A data frame is its column labels (duplicates allowed) and its rows, each row holding one
  cell per column. A frame may have rows and no column.
\<close>

record dataframe =
  columns :: "label list"
  rows :: "cell list list"

definition wellformed :: "dataframe \<Rightarrow> bool" where
  "wellformed df = list_all (\<lambda>r. length r = length (columns df)) (rows df)"

text \<open>\<open>pd.DataFrame()\<close>\<close>

definition empty_frame :: dataframe where
  "empty_frame = \<lparr>columns = [], rows = []\<rparr>"

text \<open>\<open>df.empty\<close>: an axis of length 0.\<close>

definition is_empty :: "dataframe \<Rightarrow> bool" where
  "is_empty df = (columns df = [] \<or> rows df = [])"

text \<open>\<open>len(df)\<close>\<close>

definition len_frame :: "dataframe \<Rightarrow> nat" where
  "len_frame df = length (rows df)"

text \<open>The positions of a label among the columns, in order.\<close>

definition positions :: "label list \<Rightarrow> label \<Rightarrow> nat list" where
  "positions cs l = filter (\<lambda>i. cs ! i = l) [0 ..< length cs]"

text \<open>
  \<open>df[labels]\<close>: for each requested label every column that carries it, in the order
  requested; \<open>KeyError\<close> when a label is no column.
\<close>

definition select_columns :: "dataframe \<Rightarrow> label list \<Rightarrow> py_error + dataframe" where
  "select_columns df ls =
     (if list_all (\<lambda>l. l \<in> set (columns df)) ls
      then (let idx = concat (map (positions (columns df)) ls)
            in Inr \<lparr>columns = map (\<lambda>i. columns df ! i) idx,
                    rows = map (\<lambda>r. map (\<lambda>i. r ! i) idx) (rows df)\<rparr>)
      else Inl KeyError)"

text \<open>\<open>df.rename(columns=mapping)\<close>: a label that is a key of the mapping is replaced.\<close>

definition rename_label :: "(label, string) dict \<Rightarrow> label \<Rightarrow> label" where
  "rename_label m l = (case dict_get m l of None \<Rightarrow> l | Some v \<Rightarrow> LStr v)"

definition rename_columns :: "(label, string) dict \<Rightarrow> dataframe \<Rightarrow> dataframe" where
  "rename_columns m df = df\<lparr>columns := map (rename_label m) (columns df)\<rparr>"

text \<open>\<open>df[col] = value\<close> for a label that is no column yet: a new last column.\<close>

definition add_column :: "label \<Rightarrow> cell \<Rightarrow> dataframe \<Rightarrow> dataframe" where
  "add_column l v df = \<lparr>columns = columns df @ [l], rows = map (\<lambda>r. r @ [v]) (rows df)\<rparr>"

text \<open>\<open>df.fillna("")\<close>\<close>

definition filled :: "cell \<Rightarrow> cell" where
  "filled c = (if isna c then CStr [] else c)"

definition fillna :: "dataframe \<Rightarrow> dataframe" where
  "fillna df = df\<lparr>rows := map (map filled) (rows df)\<rparr>"

text \<open>\<open>df.to_dict(orient="records")\<close>: one \<open>dict(zip(columns, row))\<close> per row.\<close>

definition to_dict_records :: "dataframe \<Rightarrow> (label, cell) dict list" where
  "to_dict_records df = map (\<lambda>r. dict_of (zip (columns df) r)) (rows df)"

text \<open>The elements of a list without repetition, each where it first occurs.\<close>

definition unique_in_order :: "'a list \<Rightarrow> 'a list" where
  "unique_in_order xs = rev (remdups (rev xs))"

text \<open>
  \<open>pd.DataFrame(records)\<close> for a list of dicts with string keys and values: the columns are
  the keys in the order they first occur, a key a record lacks is NaN there.
\<close>

definition frame_of_records :: "(string, string) dict list \<Rightarrow> dataframe" where
  "frame_of_records recs =
     (let ks = unique_in_order (concat (map dict_keys recs))
      in \<lparr>columns = map LStr ks,
          rows = map (\<lambda>r. map (\<lambda>k. case dict_get r k of
                                        None \<Rightarrow> CFloat NaN
                                      | Some v \<Rightarrow> CStr v) ks) recs\<rparr>)"

section \<open>The schema registry (services/file\_parser.py)\<close>

definition SCHEMA_MAPPING :: "(string, string list) dict" where
  "SCHEMA_MAPPING =
    [(''Player Name'', [''Player Name'', ''p_name'', ''player'', ''name'', ''full_name'',
        ''player_name'', ''player_full_name'', ''player_full'']),
     (''Matches'', [''Matches'', ''mat'', ''match_count'', ''total_matches'', ''games'',
        ''total_games'', ''matches_played'', ''matches_count'']),
     (''Innings'', [''Innings'', ''inns'', ''innings_count'', ''played_innings'',
        ''total_innings'', ''innings_played'']),
     (''Total Runs'', [''Total Runs'', ''runs'', ''total_score'', ''r_total'', ''total_runs'',
        ''runs_scored'', ''total_runs_scored'']),
     (''Highest Score'', [''Highest Score'', ''hs'', ''max_score'', ''top_score'',
        ''highest'', ''highest_score'']),
     (''Average'', [''Average'', ''ave'', ''bat_avg'', ''average_runs'', ''avg'',
        ''batting_average'']),
     (''Wickets'', [''Wickets'', ''wkt'', ''wickets_taken'', ''total_wickets'',
        ''wicket_count'']),
     (''Centuries'', [''Centuries'', ''100s'', ''centuries'', ''century'', ''100'']),
     (''Half Centuries'', [''Half Centuries'', ''50s'', ''half_centuries'', ''50'',
        ''half_century'', ''fifty'']),
     (''Fifers'', [''Fifers'', ''five_wkts'', ''5_wickets'', ''5'', ''fifer'',
        ''five_wicket_haul'']),
     (''Best Bowling Figures'', [''Best Bowling Figures'', ''bbf'', ''best_figures'',
        ''best_bowling'', ''best_bowling_figures'', ''best_bowling_figure''])]"

section \<open>The key-value block extractors (services/file\_parser.py)\<close>

text \<open>
  The state of an extraction: the records emitted so far (\<open>players\<close>), the open record
  (\<open>player_data\<close>) and the labels seen in it (\<open>duplicate_keys\<close>).
\<close>

type_synonym kv_state = "(string, string) dict list \<times> (string, string) dict \<times> string set"

text \<open>
  The body both extractors run on a line that contains \<open>':'\<close>:
  \<^verbatim>\<open>
    key, value = map(str.strip, line.split(':', 1))
    if key and value and key in duplicate_keys:
        duplicate_keys = set()
        players.append(player_data)
        player_data = {}
    if key and value:
        player_data[key] = value
        duplicate_keys.add(key)
  \<close>
\<close>

definition kv_line :: "kv_state \<Rightarrow> string \<Rightarrow> kv_state" where
  "kv_line st line =
     (case st of (players, player_data, duplicate_keys) \<Rightarrow>
        (let key = py_strip (fst (split_first CHR '':'' line));
             val = py_strip (snd (split_first CHR '':'' line));
             st1 = (if key \<noteq> [] \<and> val \<noteq> [] \<and> key \<in> duplicate_keys
                    then (players @ [player_data], [], {})
                    else (players, player_data, duplicate_keys))
         in (case st1 of (players1, player_data1, duplicate_keys1) \<Rightarrow>
               if key \<noteq> [] \<and> val \<noteq> []
               then (players1, dict_set player_data1 key val, insert key duplicate_keys1)
               else st1)))"

text \<open>One paragraph of a DOCX document: stripped, skipped when empty or without \<open>':'\<close>.\<close>

definition docx_paragraph :: "kv_state \<Rightarrow> string \<Rightarrow> kv_state" where
  "docx_paragraph st para =
     (let text = py_strip para
      in if text = [] then st
         else if CHR '':'' \<in> set text then kv_line st text
         else st)"

text \<open>The records of a DOCX document, given its paragraphs' texts.\<close>

definition docx_records :: "string list \<Rightarrow> (string, string) dict list" where
  "docx_records paragraphs =
     (case foldl docx_paragraph ([], [], {}) paragraphs of
        (players, player_data, duplicate_keys) \<Rightarrow>
          if player_data \<noteq> [] then players @ [player_data] else players)"

text \<open>One line of a PDF page.\<close>

definition pdf_line :: "kv_state \<Rightarrow> string \<Rightarrow> kv_state" where
  "pdf_line st line = (if CHR '':'' \<in> set line then kv_line st line else st)"

text \<open>
  One page of a PDF document. \<open>page.extract_text()\<close> is the page's text, or \<open>None\<close> for
  a page without text, on which \<open>text.split\<close> raises. The seen-set is assigned the
  empty set at the head of every page; the open record is kept.
\<close>

definition pdf_page ::
  "(string, string) dict list \<times> (string, string) dict \<Rightarrow> string option \<Rightarrow>
   py_error + (string, string) dict list \<times> (string, string) dict" where
  "pdf_page st page =
     (case page of
        None \<Rightarrow> Inl AttributeError
      | Some text \<Rightarrow>
          (case st of (players, player_data) \<Rightarrow>
             (case foldl pdf_line (players, player_data, {}) (py_split CHR 0x0A text) of
                (players', player_data', duplicate_keys') \<Rightarrow> Inr (players', player_data'))))"

fun pdf_pages ::
  "(string, string) dict list \<times> (string, string) dict \<Rightarrow> string option list \<Rightarrow>
   py_error + (string, string) dict list \<times> (string, string) dict" where
  "pdf_pages st [] = Inr st"
| "pdf_pages st (page # pages) =
     (case pdf_page st page of Inl e \<Rightarrow> Inl e | Inr st' \<Rightarrow> pdf_pages st' pages)"

text \<open>The records of a PDF document, given its pages' texts.\<close>

definition pdf_records :: "string option list \<Rightarrow> py_error + (string, string) dict list" where
  "pdf_records pages =
     (case pdf_pages ([], []) pages of
        Inl e \<Rightarrow> Inl e
      | Inr (players, player_data) \<Rightarrow>
          Inr (if player_data \<noteq> [] then players @ [player_data] else players))"

section \<open>External collaborators\<close>

text \<open>
  What the services call outside the repository, for one pass: the pandas readers, the
  python-docx paragraphs and the pdfplumber page texts of a path, the rendering of a frame
  as text, the completion service (prompt to response text, or the error of the call),
  \<open>difflib.get_close_matches\<close> (word, possibilities, \<open>n\<close>, \<open>cutoff\<close>), the file-type
  detector (MIME type and extension), the document loader, and the frame
  \<open>pd.read_csv\<close> reads back from what \<open>df.to_csv\<close> wrote.
\<close>

datatype prompt = Prompt string "string list" "string list"

type_synonym close_matches = "string \<Rightarrow> string list \<Rightarrow> nat \<Rightarrow> rat \<Rightarrow> string list"

record world =
  pd_read_csv :: "string \<Rightarrow> py_error + dataframe"
  pd_read_excel :: "string \<Rightarrow> py_error + dataframe"
  docx_paragraphs :: "string \<Rightarrow> py_error + string list"
  pdf_page_texts :: "string \<Rightarrow> py_error + string option list"
  to_string :: "dataframe \<Rightarrow> string"
  completion :: "prompt \<Rightarrow> py_error + string"
  get_close_matches :: close_matches
  detect_file_type :: "string \<Rightarrow> py_error + string \<times> string"
  load_file :: "string \<Rightarrow> py_error + unit"
  csv_round_trip :: "dataframe \<Rightarrow> py_error + dataframe"

text \<open>
  \<open>extract_key_value_from_docx\<close> and \<open>extract_key_value_from_pdf\<close>: any exception inside
  gives an empty frame.
\<close>

definition extract_key_value_from_docx :: "world \<Rightarrow> string \<Rightarrow> dataframe" where
  "extract_key_value_from_docx w file_path =
     (case docx_paragraphs w file_path of
        Inl e \<Rightarrow> empty_frame
      | Inr paragraphs \<Rightarrow> frame_of_records (docx_records paragraphs))"

definition extract_key_value_from_pdf :: "world \<Rightarrow> string \<Rightarrow> dataframe" where
  "extract_key_value_from_pdf w file_path =
     (case pdf_page_texts w file_path of
        Inl e \<Rightarrow> empty_frame
      | Inr pages \<Rightarrow>
          (case pdf_records pages of
             Inl e \<Rightarrow> empty_frame
           | Inr players \<Rightarrow> frame_of_records players))"

section \<open>Column reconciliation (services/file\_processing.py)\<close>

text \<open>
  The module binds the name \<open>model\<close> twice: to the generative client, then to the sentence
  encoder. The functions below read the second binding. An encoder has no
  \<open>generate_content\<close>: the attribute lookup raises.
\<close>

datatype client = GenerativeModel | SentenceTransformer

definition model :: client where
  "model = SentenceTransformer"

definition generate_content ::
  "client \<Rightarrow> (prompt \<Rightarrow> py_error + string) \<Rightarrow> prompt \<Rightarrow> py_error + string" where
  "generate_content c service p =
     (case c of GenerativeModel \<Rightarrow> service p | SentenceTransformer \<Rightarrow> Inl AttributeError)"

text \<open>\<open>text[key]\<close> for a \<open>str\<close> \<open>text\<close> and a \<open>str\<close> \<open>key\<close>: string indices must be integers.\<close>

definition str_getitem :: "string \<Rightarrow> string \<Rightarrow> py_error + 'a" where
  "str_getitem text key = Inl TypeError"

definition schema_mapping :: "(string, string list) dict" where
  "schema_mapping = SCHEMA_MAPPING"

text \<open>\<open>{alias.lower(): key for key, aliases in schema_mapping.items() for alias in aliases}\<close>\<close>

definition flat_map :: "(string, string) dict" where
  "flat_map =
     dict_of (concat (map (\<lambda>(key, aliases). map (\<lambda>alias. (py_lower alias, key)) aliases)
                          schema_mapping))"

text \<open>\<open>col.lower()\<close>: an integer label has no \<open>lower\<close>.\<close>

definition label_lower :: "label \<Rightarrow> py_error + string" where
  "label_lower l = (case l of LStr s \<Rightarrow> Inr (py_lower s) | LInt i \<Rightarrow> Inl AttributeError)"

fun lower_all :: "label list \<Rightarrow> py_error + string list" where
  "lower_all [] = Inr []"
| "lower_all (l # ls) =
     (case label_lower l of
        Inl e \<Rightarrow> Inl e
      | Inr s \<Rightarrow> (case lower_all ls of Inl e \<Rightarrow> Inl e | Inr ss \<Rightarrow> Inr (s # ss)))"

text \<open>The loop of \<open>fuzzy_match_columns\<close>, from the state \<open>(matched, unmatched)\<close>.\<close>

fun fuzzy_loop ::
  "close_matches \<Rightarrow> (label, string) dict \<times> label list \<Rightarrow> label list \<Rightarrow>
   py_error + (label, string) dict \<times> label list" where
  "fuzzy_loop gcm (matched, unmatched) [] = Inr (matched, unmatched)"
| "fuzzy_loop gcm (matched, unmatched) (col # headers) =
     (case label_lower col of
        Inl e \<Rightarrow> Inl e
      | Inr word \<Rightarrow>
          (case gcm word (dict_keys flat_map) 1 (7 / 10) of
             [] \<Rightarrow> fuzzy_loop gcm (matched, unmatched @ [col]) headers
           | m # ms \<Rightarrow>
               (case dict_getitem flat_map m of
                  Inl e \<Rightarrow> Inl e
                | Inr field \<Rightarrow> fuzzy_loop gcm (dict_set matched col field, unmatched) headers)))"

definition fuzzy_match_columns ::
  "close_matches \<Rightarrow> label list \<Rightarrow> py_error + (label, string) dict \<times> label list" where
  "fuzzy_match_columns gcm headers = fuzzy_loop gcm ([], []) headers"

text \<open>
  The inner \<open>try\<close> of \<open>process_tabular\<close> and \<open>process_document\<close>: the prompt is built from
  the sample, the schema's fields and the lower-cased headers, the completion is
  requested from \<open>model\<close>, and the two lists are read from \<open>response.text\<close>.
\<close>

definition generative_mapping ::
  "world \<Rightarrow> string \<Rightarrow> label list \<Rightarrow> py_error + (label, string) dict \<times> label list" where
  "generative_mapping w context headers =
     (case lower_all headers of
        Inl e \<Rightarrow> Inl e
      | Inr cols \<Rightarrow>
          (case generate_content model (completion w)
                  (Prompt context (dict_keys schema_mapping) cols) of
             Inl e \<Rightarrow> Inl e
           | Inr text \<Rightarrow>
               (case str_getitem text ''matched_columns'' of
                  Inl e \<Rightarrow> Inl e
                | Inr matched \<Rightarrow>
                    (case str_getitem text ''unmatched_columns'' of
                       Inl e \<Rightarrow> Inl e
                     | Inr unmatched \<Rightarrow> Inr (matched, unmatched)))))"

text \<open>The inner \<open>try ... except: matched, unmatched = fuzzy_match_columns(headers)\<close>.\<close>

definition resolve_mapping ::
  "world \<Rightarrow> dataframe \<Rightarrow> py_error + (label, string) dict \<times> label list" where
  "resolve_mapping w df =
     (case generative_mapping w (to_string w (df\<lparr>rows := take 10 (rows df)\<rparr>)) (columns df) of
        Inr r \<Rightarrow> Inr r
      | Inl e \<Rightarrow> fuzzy_match_columns (get_close_matches w) (columns df))"

text \<open>The processing summary: the \<open>result\<close> dict of the two functions.\<close>

record summary =
  file_path :: string
  total_records :: nat
  accepted_records :: nat
  rejected_records :: nat
  matched_columns :: "(label, string) dict"
  unmatched_columns :: "label list"
  status :: string

text \<open>The summary both functions return from their outer \<open>except\<close>, and for an empty
  document.\<close>

definition rejected_summary :: "string \<Rightarrow> summary" where
  "rejected_summary path =
     \<lparr>file_path = path, total_records = 0, accepted_records = 0, rejected_records = 0,
      matched_columns = [], unmatched_columns = [], status = ''Rejected''\<rparr>"

text \<open>
  The tail both functions share, from \<open>total = len(df)\<close> to the \<open>return\<close>:
  \<^verbatim>\<open>
    total = len(df)
    accepted = total if len(matched) >= 6 else 0
    mapped_temp_col = [key for key, _ in matched.items() if key in df.columns]
    matched_data = df[mapped_temp_col] if matched else pd.DataFrame()
    result = {..., "status": "Accepted" if accepted else "Rejected"}
    return result, matched_data, matched
  \<close>
\<close>

definition summarize ::
  "string \<Rightarrow> dataframe \<Rightarrow> (label, string) dict \<Rightarrow> label list \<Rightarrow>
   py_error + summary \<times> dataframe \<times> (label, string) dict" where
  "summarize path df matched unmatched =
     (let n = len_frame df;
          accepted = (if 6 \<le> length matched then n else 0);
          mapped_temp_col = filter (\<lambda>key. key \<in> set (columns df)) (dict_keys matched)
      in case (if matched \<noteq> [] then select_columns df mapped_temp_col else Inr empty_frame) of
           Inl e \<Rightarrow> Inl e
         | Inr matched_data \<Rightarrow>
             Inr (\<lparr>file_path = path, total_records = n, accepted_records = accepted,
                   rejected_records = n - accepted, matched_columns = matched,
                   unmatched_columns = unmatched,
                   status = (if accepted \<noteq> 0 then ''Accepted'' else ''Rejected'')\<rparr>,
                  matched_data, matched))"

definition load_tabular :: "world \<Rightarrow> string \<Rightarrow> py_error + dataframe" where
  "load_tabular w path =
     (if endswith path ''.csv'' then pd_read_csv w path else pd_read_excel w path)"

definition process_tabular ::
  "world \<Rightarrow> string \<Rightarrow> summary \<times> dataframe \<times> (label, string) dict" where
  "process_tabular w path =
     (case load_tabular w path of
        Inl e \<Rightarrow> (rejected_summary path, empty_frame, [])
      | Inr df \<Rightarrow>
          (case resolve_mapping w df of
             Inl e \<Rightarrow> (rejected_summary path, empty_frame, [])
           | Inr (matched, unmatched) \<Rightarrow>
               (case summarize path df matched unmatched of
                  Inl e \<Rightarrow> (rejected_summary path, empty_frame, [])
                | Inr r \<Rightarrow> r)))"

text \<open>What \<open>process_document\<close> returns: a pair for an empty document, a triple otherwise.\<close>

datatype returned =
    Tuple2 summary dataframe
  | Tuple3 summary dataframe "(label, string) dict"

definition load_document :: "world \<Rightarrow> string \<Rightarrow> dataframe" where
  "load_document w path =
     (if endswith path ''.docx'' then extract_key_value_from_docx w path
      else extract_key_value_from_pdf w path)"

text \<open>\<open>process_document(docs, file_path)\<close>; \<open>docs\<close> is not read. A path that is empty (or
  \<open>None\<close>) raises \<open>ValueError\<close> into the outer \<open>except\<close>.\<close>

definition process_document :: "world \<Rightarrow> string \<Rightarrow> returned" where
  "process_document w path =
     (if path = [] then Tuple3 (rejected_summary path) empty_frame []
      else (let df = load_document w path
            in if is_empty df then Tuple2 (rejected_summary path) empty_frame
               else (case resolve_mapping w df of
                       Inl e \<Rightarrow> Tuple3 (rejected_summary path) empty_frame []
                     | Inr (matched, unmatched) \<Rightarrow>
                         (case summarize path df matched unmatched of
                            Inl e \<Rightarrow> Tuple3 (rejected_summary path) empty_frame []
                          | Inr (result, matched_data, matched') \<Rightarrow>
                              Tuple3 result matched_data matched'))))"

definition summary_of :: "returned \<Rightarrow> summary" where
  "summary_of r = (case r of Tuple2 s d \<Rightarrow> s | Tuple3 s d m \<Rightarrow> s)"

section \<open>The analyzer (services/file\_analyzer.py)\<close>

text \<open>\<open>result, matched_data, matched = ...\<close>: unpacking a pair into three names raises.\<close>

definition unpack3 ::
  "returned \<Rightarrow> py_error + summary \<times> dataframe \<times> (label, string) dict" where
  "unpack3 r = (case r of Tuple2 s d \<Rightarrow> Inl ValueError | Tuple3 s d m \<Rightarrow> Inr (s, d, m))"

text \<open>\<open>needle in text\<close> for two strings.\<close>

fun contains :: "string \<Rightarrow> string \<Rightarrow> bool" where
  "contains needle [] = (needle = [])"
| "contains needle (c # cs) = (take (length needle) (c # cs) = needle \<or> contains needle cs)"

text \<open>The document branches: \<open>load_file\<close>, then \<open>process_document\<close>, any exception raised
  again as \<open>RuntimeError\<close>.\<close>

definition analyze_document ::
  "world \<Rightarrow> string \<Rightarrow> py_error + summary \<times> dataframe \<times> (label, string) dict" where
  "analyze_document w path =
     (case load_file w path of
        Inl e \<Rightarrow> Inl RuntimeError
      | Inr docs \<Rightarrow>
          (case unpack3 (process_document w path) of
             Inl e \<Rightarrow> Inl RuntimeError
           | Inr r \<Rightarrow> Inr r))"

definition temp_csv :: string where
  "temp_csv = ''temp_converted_from_excel.csv''"

text \<open>
  \<open>analyze_file\<close>. The spreadsheet branch writes the sheet as CSV and processes that file,
  which \<open>pd.read_csv\<close> then reads; when reading the sheet fails it is processed as a
  document. Every exception leaves as \<open>RuntimeError\<close>.
\<close>

definition analyze_file ::
  "world \<Rightarrow> string \<Rightarrow> py_error + summary \<times> dataframe \<times> (label, string) dict" where
  "analyze_file w path =
     (case detect_file_type w path of
        Inl e \<Rightarrow> Inl RuntimeError
      | Inr (mime, ext) \<Rightarrow>
          if ext = ''csv'' then Inr (process_tabular w path)
          else if ext = ''xlsx'' then
            (case pd_read_excel w path of
               Inl e \<Rightarrow> analyze_document w path
             | Inr df \<Rightarrow>
                 Inr (process_tabular
                        (w\<lparr>pd_read_csv := (pd_read_csv w)(temp_csv := csv_round_trip w df)\<rparr>)
                        temp_csv))
          else if contains ''word'' mime \<or> ext = ''docx'' \<or> ext = ''doc'' then
            analyze_document w path
          else if contains ''pdf'' mime \<or> ext = ''pdf'' then analyze_document w path
          else Inl RuntimeError)"

section \<open>Normalization (api/v1/endpoints/upload\_file.py, services/save\_data.py)\<close>

text \<open>
  \<^verbatim>\<open>
    for col in schema_mapping:
        if col not in matched_data.columns:
            matched_data[col] = "-"
  \<close>
\<close>

definition add_placeholders :: "dataframe \<Rightarrow> dataframe" where
  "add_placeholders df =
     foldl (\<lambda>d col. if LStr col \<in> set (columns d) then d
                      else add_column (LStr col) (CStr ''-'') d)
           df (dict_keys schema_mapping)"

text \<open>
  The block both the upload endpoint and the correction service run on the projected
  frame: rename by the mapping, add the placeholder columns, take the schema's columns in
  the schema's order, fill the missing cells, and turn the rows into records.
\<close>

definition normalize_records ::
  "(label, string) dict \<Rightarrow> dataframe \<Rightarrow> py_error + (label, cell) dict list" where
  "normalize_records mapping matched_data =
     (case select_columns (add_placeholders (rename_columns mapping matched_data))
             (map LStr (dict_keys schema_mapping)) of
        Inl e \<Rightarrow> Inl e
      | Inr ordered \<Rightarrow> Inr (to_dict_records (fillna ordered)))"

section \<open>Number conversion (services/save\_data.py)\<close>

definition is_digit :: "char \<Rightarrow> bool" where
  "is_digit c = (let n = (of_char c :: int) in 48 \<le> n \<and> n \<le> 57)"

definition digit_value :: "char \<Rightarrow> int" where
  "digit_value c = of_char c - 48"

text \<open>An underscore may stand only between two digits; \<open>prev\<close> is the character before.\<close>

fun underscores_ok :: "char \<Rightarrow> string \<Rightarrow> bool" where
  "underscores_ok prev [] = (prev \<noteq> CHR ''_'')"
| "underscores_ok prev (c # cs) =
     (if c = CHR ''_'' then is_digit prev \<and> underscores_ok c cs
      else if prev = CHR ''_'' then is_digit c \<and> underscores_ok c cs
      else underscores_ok c cs)"

definition strip_sign :: "string \<Rightarrow> string" where
  "strip_sign s =
     (case s of [] \<Rightarrow> [] | c # cs \<Rightarrow> if c = CHR ''+'' \<or> c = CHR ''-'' then cs else s)"

definition without_underscores :: "string \<Rightarrow> string" where
  "without_underscores s = filter (\<lambda>c. c \<noteq> CHR ''_'') s"

text \<open>The default of \<open>sys.set_int_max_str_digits\<close>.\<close>

definition int_max_str_digits :: nat where
  "int_max_str_digits = 4300"

text \<open>
  The whitespace \<open>int\<close> and \<open>float\<close> drop at both ends of a string: that of C's
  \<open>isspace\<close>, and the two spaces above 127, which they first rewrite to a blank. The
  separators \<open>0x1C\<close> to \<open>0x1F\<close>, which \<open>str.strip\<close> drops, are kept.
\<close>

definition is_number_space :: "char \<Rightarrow> bool" where
  "is_number_space c =
     (let n = (of_char c :: int)
      in (9 \<le> n \<and> n \<le> 13) \<or> n = 32 \<or> n = 133 \<or> n = 160)"

definition number_strip :: "string \<Rightarrow> string" where
  "number_strip s = rev (dropWhile is_number_space (rev (dropWhile is_number_space s)))"

text \<open>
  \<open>int(s)\<close> for a string: surrounding whitespace is dropped, then an optional sign and
  decimal digits, single underscores allowed between digits. \<open>None\<close> is \<open>ValueError\<close>.
\<close>

definition parse_int :: "string \<Rightarrow> int option" where
  "parse_int s =
     (let t = number_strip s;
          ds = without_underscores (strip_sign t)
      in if ds \<noteq> [] \<and> list_all is_digit ds \<and> underscores_ok CHR 0x00 (strip_sign t)
            \<and> length ds \<le> int_max_str_digits
         then Some ((if take 1 t = ''-'' then - 1 else 1) *
                    foldl (\<lambda>a c. 10 * a + digit_value c) 0 ds)
         else None)"

text \<open>\<open>int(value)\<close>: a float is truncated towards zero.\<close>

definition py_int :: "cell \<Rightarrow> py_error + int" where
  "py_int v =
     (case v of
        CNone \<Rightarrow> Inl TypeError
      | CStr s \<Rightarrow> (case parse_int s of None \<Rightarrow> Inl ValueError | Some i \<Rightarrow> Inr i)
      | CInt i \<Rightarrow> Inr i
      | CBool b \<Rightarrow> Inr (if b then 1 else 0)
      | CFloat f \<Rightarrow>
          (case f of
             Finite q \<Rightarrow> Inr (if 0 \<le> q then \<lfloor>q\<rfloor> else \<lceil>q\<rceil>)
           | PosInf \<Rightarrow> Inl OverflowError
           | NegInf \<Rightarrow> Inl OverflowError
           | NaN \<Rightarrow> Inl ValueError))"

text \<open>\<open>safe_int\<close>: \<open>except (ValueError, TypeError): return 0\<close>; another exception leaves.\<close>

definition safe_int :: "cell \<Rightarrow> py_error + int" where
  "safe_int v =
     (case py_int v of
        Inr i \<Rightarrow> Inr i
      | Inl e \<Rightarrow> if e = ValueError \<or> e = TypeError then Inr 0 else Inl e)"

text \<open>\<open>convert_string_to_int\<close>: \<open>except ValueError: return None\<close>.\<close>

definition convert_string_to_int :: "string \<Rightarrow> int option" where
  "convert_string_to_int v = parse_int v"

text \<open>
  The text \<open>float(s)\<close> accepts, once whitespace and underscores are gone: an optional sign,
  then \<open>inf\<close>, \<open>infinity\<close> or \<open>nan\<close> in any case, or digits with an optional point and an
  optional exponent, at least one digit before the exponent.
\<close>

definition exponent_ok :: "string \<Rightarrow> bool" where
  "exponent_ok r =
     (case r of
        [] \<Rightarrow> True
      | e # ds \<Rightarrow> (e = CHR ''e'' \<or> e = CHR ''E'') \<and> strip_sign ds \<noteq> []
                    \<and> list_all is_digit (strip_sign ds))"

definition decimal_ok :: "string \<Rightarrow> bool" where
  "decimal_ok b =
     (let ip = takeWhile is_digit b;
          r1 = dropWhile is_digit b;
          fp = (case r1 of [] \<Rightarrow> [] | c # cs \<Rightarrow> if c = CHR ''.'' then takeWhile is_digit cs else []);
          r2 = (case r1 of [] \<Rightarrow> [] | c # cs \<Rightarrow> if c = CHR ''.'' then dropWhile is_digit cs else r1)
      in \<not> (ip = [] \<and> fp = []) \<and> exponent_ok r2)"

definition is_float_literal :: "string \<Rightarrow> bool" where
  "is_float_literal s =
     (let t = number_strip s;
          b = strip_sign (without_underscores t)
      in underscores_ok CHR 0x00 t
         \<and> (py_lower b = ''inf'' \<or> py_lower b = ''infinity'' \<or> py_lower b = ''nan''
              \<or> decimal_ok b))"

text \<open>
  A value of \<open>float(value)\<close>: the float itself, or the binary64 value nearest to a decimal
  text or to an integer (the rounding is not computed here).
\<close>

datatype float_value = Exactly pyfloat | Nearest_to_text string | Nearest_to_int int

text \<open>\<open>float(value)\<close>: an integer that rounds beyond the largest float overflows.\<close>

definition py_float :: "cell \<Rightarrow> py_error + float_value" where
  "py_float v =
     (case v of
        CNone \<Rightarrow> Inl TypeError
      | CStr s \<Rightarrow> if is_float_literal s then Inr (Nearest_to_text s) else Inl ValueError
      | CInt i \<Rightarrow> if \<bar>i\<bar> < 2 ^ 1024 - 2 ^ 970 then Inr (Nearest_to_int i) else Inl OverflowError
      | CBool b \<Rightarrow> Inr (Exactly (Finite (if b then 1 else 0)))
      | CFloat f \<Rightarrow> Inr (Exactly f))"

text \<open>\<open>safe_float\<close>: \<open>except (ValueError, TypeError): return 0.0\<close>.\<close>

definition safe_float :: "cell \<Rightarrow> py_error + float_value" where
  "safe_float v =
     (case py_float v of
        Inr f \<Rightarrow> Inr f
      | Inl e \<Rightarrow> if e = ValueError \<or> e = TypeError then Inr (Exactly (Finite 0)) else Inl e)"

section \<open>The correction service (services/save\_data.py)\<close>

record request =
  file_id :: int
  user_mapping :: "(string, string) dict"
  path :: string
  file_type :: string

text \<open>The rows of the tables the service writes; an array column may be \<open>NULL\<close>.\<close>

record file_processing_log =
  log_file_id :: int
  log_matched_columns :: "label list option"
  log_unmatched_columns :: "label list option"
  log_total_records :: "nat option"
  log_status :: "string option"

record player =
  player_id :: nat
  player_file_id :: int
  player_name :: cell
  matches :: int
  innings :: int

record batting =
  batting_player_id :: nat
  total_runs :: int
  average :: float_value
  highest_score :: cell
  century :: int
  half_century :: int

record bowling =
  bowling_player_id :: nat
  wickets :: int
  five_wickets :: int
  best_bowling :: cell

record file_upload =
  upload_id :: int
  file_name :: string
  upload_file_type :: string

text \<open>The store: the tables, and the last identifier each sequence gave out.\<close>

record db =
  file_uploads :: "file_upload list"
  logs :: "file_processing_log list"
  players :: "player list"
  battings :: "batting list"
  bowlings :: "bowling list"
  file_seq :: nat
  player_seq :: nat

text \<open>
  \<open>save_rejected_files\<close>: a row for the file and a log that holds the status only; the
  log's lists and its count stay \<open>NULL\<close>.
  \<^verbatim>\<open>
    file_type = file_name.split(".")[-1] if "." in file_name else "unknown"
    file_name = file_name.split(".")[0]
    file_record = FileUpload(file_name=file_name, file_type=file_type)
    db.add(file_record)
    db.flush()
    metadata_record = FileProcessingLog(file_id=file_record.id, status="rejected")
    db.add(metadata_record)
    db.commit()
    return file_record.id
  \<close>
\<close>

definition save_rejected_files :: "string \<Rightarrow> db \<Rightarrow> int \<times> db" where
  "save_rejected_files name d =
     (let ftype = (if CHR ''.'' \<in> set name then last (py_split CHR ''.'' name)
                   else ''unknown'');
          file_record = \<lparr>upload_id = int (Suc (file_seq d)),
                         file_name = hd (py_split CHR ''.'' name),
                         upload_file_type = ftype\<rparr>;
          metadata_record = \<lparr>log_file_id = upload_id file_record,
                             log_matched_columns = None, log_unmatched_columns = None,
                             log_total_records = None, log_status = Some ''rejected''\<rparr>
      in (upload_id file_record,
          d\<lparr>file_uploads := file_uploads d @ [file_record],
            logs := logs d @ [metadata_record],
            file_seq := Suc (file_seq d)\<rparr>))"

text \<open>The frame the service reads again from the request's path.\<close>

definition reload :: "world \<Rightarrow> request \<Rightarrow> py_error + dataframe" where
  "reload w request =
     (if file_type request = ''csv'' \<or> file_type request = ''xlsx''
      then (if file_type request = ''csv'' then pd_read_csv w (path request)
            else pd_read_excel w (path request))
      else if endswith (path request) ''.docx''
           then Inr (extract_key_value_from_docx w (path request))
           else Inr (extract_key_value_from_pdf w (path request)))"

text \<open>
  \<^verbatim>\<open>
    for key, value in mapped.items():
        new_key = convert_string_to_int(key)
        if new_key != None and new_key in header:
            mapped_temp_col.append(new_key)
            new_mapped[new_key] = value
        elif key in header:
            mapped_temp_col.append(key)
            new_mapped[key] = value
  \<close>
\<close>

definition map_key ::
  "label list \<Rightarrow> label list \<times> (label, string) dict \<Rightarrow> string \<times> string \<Rightarrow>
   label list \<times> (label, string) dict" where
  "map_key header st kv =
     (case st of (mapped_temp_col, new_mapped) \<Rightarrow>
        (case kv of (key, val) \<Rightarrow>
           (case convert_string_to_int key of
              Some new_key \<Rightarrow>
                if LInt new_key \<in> set header
                then (mapped_temp_col @ [LInt new_key], dict_set new_mapped (LInt new_key) val)
                else if LStr key \<in> set header
                then (mapped_temp_col @ [LStr key], dict_set new_mapped (LStr key) val)
                else st
            | None \<Rightarrow>
                if LStr key \<in> set header
                then (mapped_temp_col @ [LStr key], dict_set new_mapped (LStr key) val)
                else st)))"

definition map_keys ::
  "label list \<Rightarrow> (string, string) dict \<Rightarrow> label list \<times> (label, string) dict" where
  "map_keys header mapped = foldl (map_key header) ([], []) mapped"

text \<open>The canonical records of a correction: projection by the mapped headers, then the
  normalization block.\<close>

definition corrected_records ::
  "(string, string) dict \<Rightarrow> dataframe \<Rightarrow> py_error + (label, cell) dict list" where
  "corrected_records mapped df =
     (case map_keys (columns df) mapped of (mapped_temp_col, new_mapped) \<Rightarrow>
        (case (if mapped \<noteq> [] then select_columns df mapped_temp_col else Inr empty_frame) of
           Inl e \<Rightarrow> Inl e
         | Inr matched_data \<Rightarrow> normalize_records new_mapped matched_data))"

text \<open>\<open>d.get(key)\<close>: Python's \<open>None\<close> for a missing key.\<close>

definition get_or_none :: "('k, cell) dict \<Rightarrow> 'k \<Rightarrow> cell" where
  "get_or_none d k = (case dict_get d k of None \<Rightarrow> CNone | Some v \<Rightarrow> v)"

text \<open>
  \<open>mapped_row\<close>: for every value of the user's mapping, the row's cell under that name.
\<close>

definition mapped_row_of :: "string list \<Rightarrow> (label, cell) dict \<Rightarrow> (string, cell) dict" where
  "mapped_row_of mapping_values row =
     foldl (\<lambda>mapped_row mapped_key. dict_set mapped_row mapped_key (get_or_none row (LStr mapped_key)))
           [] mapping_values"

text \<open>Python's truth value of a cell, for \<open>value or default\<close>.\<close>

definition truthy :: "cell \<Rightarrow> bool" where
  "truthy v =
     (case v of
        CNone \<Rightarrow> False
      | CStr s \<Rightarrow> s \<noteq> []
      | CInt i \<Rightarrow> i \<noteq> 0
      | CBool b \<Rightarrow> b
      | CFloat f \<Rightarrow> f \<noteq> Finite 0)"

definition or_default :: "cell \<Rightarrow> string \<Rightarrow> cell" where
  "or_default v d = (if truthy v then v else CStr d)"

text \<open>
  The three rows written for one record. \<open>highest_score\<close> and \<open>best_bowling\<close> hold the
  value whose \<open>str\<close> is stored. A conversion that raises ends the request.
\<close>

definition build_rows ::
  "int \<Rightarrow> nat \<Rightarrow> (string, cell) dict \<Rightarrow> py_error + player \<times> batting \<times> bowling" where
  "build_rows fid pid mapped_row =
     (case safe_int (get_or_none mapped_row ''Matches'') of Inl e \<Rightarrow> Inl e | Inr m \<Rightarrow>
     (case safe_int (get_or_none mapped_row ''Innings'') of Inl e \<Rightarrow> Inl e | Inr i \<Rightarrow>
     (case safe_int (get_or_none mapped_row ''Total Runs'') of Inl e \<Rightarrow> Inl e | Inr r \<Rightarrow>
     (case safe_float (get_or_none mapped_row ''Average'') of Inl e \<Rightarrow> Inl e | Inr a \<Rightarrow>
     (case safe_int (get_or_none mapped_row ''Centuries'') of Inl e \<Rightarrow> Inl e | Inr c \<Rightarrow>
     (case safe_int (get_or_none mapped_row ''Half Centuries'') of Inl e \<Rightarrow> Inl e | Inr h \<Rightarrow>
     (case safe_int (get_or_none mapped_row ''Wickets'') of Inl e \<Rightarrow> Inl e | Inr k \<Rightarrow>
     (case safe_int (get_or_none mapped_row ''Fifers'') of Inl e \<Rightarrow> Inl e | Inr f \<Rightarrow>
        Inr (\<lparr>player_id = pid, player_file_id = fid,
              player_name = (case dict_get mapped_row ''Player Name'' of
                               None \<Rightarrow> CStr ''Unknown'' | Some v \<Rightarrow> v),
              matches = m, innings = i\<rparr>,
             \<lparr>batting_player_id = pid, total_runs = r, average = a,
              highest_score = or_default (get_or_none mapped_row ''Highest Score'') ''0'',
              century = c, half_century = h\<rparr>,
             \<lparr>bowling_player_id = pid, wickets = k, five_wickets = f,
              best_bowling =
                or_default (get_or_none mapped_row ''Best Bowling Figures'') ''0/0''\<rparr>)))))))))"

text \<open>
  The loop over the records, from the state (store, \<open>total_records\<close>,
  \<open>unmatched_columns_set\<close>). A mapped name the record lacks goes to the unmatched set.
\<close>

fun persist_rows ::
  "int \<Rightarrow> string list \<Rightarrow> db \<times> nat \<times> string list \<Rightarrow> (label, cell) dict list \<Rightarrow>
   py_error + db \<times> nat \<times> string list" where
  "persist_rows fid mapping_values st [] = Inr st"
| "persist_rows fid mapping_values (d, n, unmatched) (row # raw_data) =
     (let mapped_row = mapped_row_of mapping_values row;
          unmatched' = unmatched @ filter (\<lambda>k. get_or_none row (LStr k) = CNone) mapping_values
      in case build_rows fid (Suc (player_seq d)) mapped_row of
           Inl e \<Rightarrow> Inl e
         | Inr (p, ba, bo) \<Rightarrow>
             persist_rows fid mapping_values
               (d\<lparr>players := players d @ [p], battings := battings d @ [ba],
                  bowlings := bowlings d @ [bo], player_seq := Suc (player_seq d)\<rparr>,
                Suc n, unmatched')
               raw_data)"

text \<open>\<open>db.query(FileProcessingLog).filter(FileProcessingLog.file_id == file_id).first()\<close>\<close>

definition find_log :: "db \<Rightarrow> int \<Rightarrow> file_processing_log option" where
  "find_log d fid = find (\<lambda>l. log_file_id l = fid) (logs d)"

text \<open>
  The branch for a file that has a log:
  \<^verbatim>\<open>
    file_log.matched_columns = list(new_mapped.keys())
    temp_unmatched_columns = file_log.unmatched_columns
    for col in header:
        if col not in file_log.matched_columns:
            temp_unmatched_columns.append(col)
    file_log.unmatched_columns = list(set(temp_unmatched_columns))
    file_log.total_records = total_records
    file_log.status = "accepted" if len(list(new_mapped.keys())) else "partial"
  \<close>
  Appending to a \<open>NULL\<close> list and \<open>set(None)\<close> raise. \<open>list(set(xs))\<close> holds the
  elements of \<open>xs\<close> once each, in no order Python fixes; here in order of first occurrence.
\<close>

definition merge_log ::
  "label list \<Rightarrow> (label, string) dict \<Rightarrow> nat \<Rightarrow> file_processing_log \<Rightarrow>
   py_error + file_processing_log" where
  "merge_log header new_mapped n file_log =
     (let matched = dict_keys new_mapped;
          missing = filter (\<lambda>col. col \<notin> set matched) header
      in case log_unmatched_columns file_log of
           None \<Rightarrow> Inl (if missing \<noteq> [] then AttributeError else TypeError)
         | Some temp_unmatched_columns \<Rightarrow>
             Inr (file_log\<lparr>log_matched_columns := Some matched,
                            log_unmatched_columns :=
                              Some (unique_in_order (temp_unmatched_columns @ missing)),
                            log_total_records := Some n,
                            log_status := Some (if matched \<noteq> [] then ''accepted''
                                                else ''partial'')\<rparr>))"

text \<open>The branch for a file without a log.\<close>

definition new_log :: "int \<Rightarrow> string list \<Rightarrow> string list \<Rightarrow> nat \<Rightarrow> file_processing_log" where
  "new_log fid mapping_values unmatched n =
     \<lparr>log_file_id = fid,
      log_matched_columns = Some (map LStr mapping_values),
      log_unmatched_columns = Some (map LStr (unique_in_order unmatched)),
      log_total_records = Some n,
      log_status = Some (if unmatched = [] then ''accepted'' else ''partial'')\<rparr>"

text \<open>Replacing the first log of a file, as the update of the queried row does.\<close>

fun replace_log :: "int \<Rightarrow> file_processing_log \<Rightarrow> file_processing_log list \<Rightarrow>
  file_processing_log list" where
  "replace_log fid l' [] = []"
| "replace_log fid l' (l # ls) =
     (if log_file_id l = fid then l' # ls else l # replace_log fid l' ls)"

text \<open>The body of the \<open>try\<close> of \<open>save_submit_columns_data\<close>, up to \<open>db.commit()\<close>.\<close>

definition submit_body :: "world \<Rightarrow> request \<Rightarrow> db \<Rightarrow> py_error + db" where
  "submit_body w request d =
     (case reload w request of
        Inl e \<Rightarrow> Inl e
      | Inr df \<Rightarrow>
          (case corrected_records (user_mapping request) df of
             Inl e \<Rightarrow> Inl e
           | Inr raw_data \<Rightarrow>
               (case persist_rows (file_id request) (dict_values (user_mapping request))
                       (d, 0, []) raw_data of
                  Inl e \<Rightarrow> Inl e
                | Inr (d', n_records, unmatched) \<Rightarrow>
                    (case find_log d' (file_id request) of
                       None \<Rightarrow>
                         Inr (d'\<lparr>logs := logs d' @
                                   [new_log (file_id request) (dict_values (user_mapping request))
                                      unmatched n_records]\<rparr>)
                     | Some file_log \<Rightarrow>
                         (case merge_log (columns df)
                                 (snd (map_keys (columns df) (user_mapping request)))
                                 n_records file_log of
                            Inl e \<Rightarrow> Inl e
                          | Inr file_log' \<Rightarrow>
                              Inr (d'\<lparr>logs := replace_log (file_id request) file_log'
                                                  (logs d')\<rparr>))))))"

text \<open>
  \<open>save_submit_columns_data\<close>: the answer and the store afterwards. An exception rolls the
  transaction back and leaves as an HTTP 500.
\<close>

definition save_submit_columns_data ::
  "world \<Rightarrow> request \<Rightarrow> db \<Rightarrow> (py_error + string) \<times> db" where
  "save_submit_columns_data w request d =
     (case submit_body w request d of
        Inl e \<Rightarrow> (Inl (HTTPException 500), d)
      | Inr d' \<Rightarrow> (Inr ''success'', d'))"

section \<open>Concrete passes\<close>

text \<open>
  A closeness function for the concrete passes below: the word itself when it is one of
  the possibilities, nothing otherwise. \<open>difflib.get_close_matches\<close> with \<open>n = 1\<close>
  answers so for a word that is a possibility (the only one of ratio 1) and for a word
  that shares no character with any possibility (every ratio is 0).
\<close>

definition exact_matches :: close_matches where
  "exact_matches word possibilities n cutoff = take n (filter (\<lambda>p. p = word) possibilities)"

text \<open>A world in which no file can be read and the completion service is down.\<close>

definition offline :: world where
  "offline =
     \<lparr>pd_read_csv = (\<lambda>p. Inl OtherError), pd_read_excel = (\<lambda>p. Inl OtherError),
      docx_paragraphs = (\<lambda>p. Inl OtherError), pdf_page_texts = (\<lambda>p. Inl OtherError),
      to_string = (\<lambda>df. []), completion = (\<lambda>p. Inl OtherError),
      get_close_matches = exact_matches, detect_file_type = (\<lambda>p. Inl OtherError),
      load_file = (\<lambda>p. Inr ()), csv_round_trip = Inr\<rparr>"

text \<open>A CSV file whose six headers are all aliases of the player's name, with two rows.\<close>

definition six_names :: dataframe where
  "six_names =
     \<lparr>columns = map LStr [''p_name'', ''player'', ''name'', ''full_name'', ''player_name'',
                            ''player_full''],
      rows = [map CStr [''A'', ''A'', ''A'', ''A'', ''A'', ''A''],
              map CStr [''B'', ''B'', ''B'', ''B'', ''B'', ''B'']]\<rparr>"

definition six_names_world :: world where
  "six_names_world =
     offline\<lparr>pd_read_csv := (\<lambda>p. Inr six_names),
             detect_file_type := (\<lambda>p. Inr (''text/csv'', ''csv''))\<rparr>"

text \<open>A DOCX document of two players with three fields each.\<close>

definition two_players_world :: world where
  "two_players_world =
     offline\<lparr>docx_paragraphs :=
               (\<lambda>p. Inr [''name: A'', ''runs: 1'', ''mat: 3'', ''name: B'', ''runs: 2'', ''mat: 4'']),
             detect_file_type := (\<lambda>p. Inr (''application/msword'', ''docx''))\<rparr>"

text \<open>
  A CSV file with the one header \<open>zzz\<close>, and a completion service that answers in the
  agreed format, mapping that header to \<open>Matches\<close>.
\<close>

definition zzz_frame :: dataframe where
  "zzz_frame = \<lparr>columns = [LStr ''zzz''], rows = [[CInt 7]]\<rparr>"

definition conforming_response :: string where
  "conforming_response =
     ''{'' @ [CHR 0x22] @ ''matched_columns'' @ [CHR 0x22] @ '': {'' @ [CHR 0x22] @ ''zzz''
       @ [CHR 0x22] @ '': '' @ [CHR 0x22] @ ''Matches'' @ [CHR 0x22] @ ''}, '' @ [CHR 0x22]
       @ ''unmatched_columns'' @ [CHR 0x22] @ '': [], '' @ [CHR 0x22] @ ''summary''
       @ [CHR 0x22] @ '': '' @ [CHR 0x22] @ ''ok'' @ [CHR 0x22] @ ''}''"

definition answering_world :: world where
  "answering_world =
     offline\<lparr>pd_read_csv := (\<lambda>p. Inr zzz_frame),
             completion := (\<lambda>p. Inr conforming_response),
             detect_file_type := (\<lambda>p. Inr (''text/csv'', ''csv''))\<rparr>"

text \<open>A DOCX document without any \<open>':'\<close>.\<close>

definition prose_world :: world where
  "prose_world =
     offline\<lparr>docx_paragraphs := (\<lambda>p. Inr [''Season report'', ''No table here'']),
             detect_file_type := (\<lambda>p. Inr (''application/msword'', ''docx''))\<rparr>"

text \<open>The acceptance rule in the specification's words: the count of distinct canonical
  fields decides.\<close>

definition accepted_by_distinct_fields :: "(label, string) dict \<Rightarrow> nat \<Rightarrow> nat" where
  "accepted_by_distinct_fields m n = (if 6 \<le> length (remdups (dict_values m)) then n else 0)"

text \<open>What the summary of a pass over \<open>n\<close> rows with the mapping \<open>m\<close> and the unmatched
  headers \<open>u\<close> holds.\<close>

definition summary_for ::
  "string \<Rightarrow> nat \<Rightarrow> (label, string) dict \<Rightarrow> label list \<Rightarrow> summary" where
  "summary_for p n m u =
     \<lparr>file_path = p, total_records = n,
      accepted_records = (if 6 \<le> length m then n else 0),
      rejected_records = n - (if 6 \<le> length m then n else 0),
      matched_columns = m, unmatched_columns = u,
      status = (if 0 < (if 6 \<le> length m then n else 0) then ''Accepted'' else ''Rejected'')\<rparr>"

definition six_names_mapping :: "(label, string) dict" where
  "six_names_mapping =
     map (\<lambda>h. (LStr h, ''Player Name''))
       [''p_name'', ''player'', ''name'', ''full_name'', ''player_name'', ''player_full'']"

definition two_players_frame :: dataframe where
  "two_players_frame =
     \<lparr>columns = map LStr [''name'', ''runs'', ''mat''],
      rows = [map CStr [''A'', ''1'', ''3''], map CStr [''B'', ''2'', ''4'']]\<rparr>"

definition two_players_mapping :: "(label, string) dict" where
  "two_players_mapping =
     [(LStr ''name'', ''Player Name''), (LStr ''runs'', ''Total Runs''),
      (LStr ''mat'', ''Matches'')]"

text \<open>A closeness function that agrees with \<open>exact_matches\<close> when one match is asked
  for, and answers nothing otherwise.\<close>

definition single_matches :: close_matches where
  "single_matches word possibilities n cutoff =
     (if n = 1 then exact_matches word possibilities n cutoff else [])"

section \<open>Notions the statements use\<close>

text \<open>The header a key of the user's mapping selects: the integer it reads as when that
  integer is a header, else the key itself when it is a header, else none.\<close>

definition header_for :: "label list \<Rightarrow> string \<Rightarrow> label option" where
  "header_for header key =
     (case convert_string_to_int key of
        Some i \<Rightarrow> if LInt i \<in> set header then Some (LInt i)
                  else if LStr key \<in> set header then Some (LStr key) else None
      | None \<Rightarrow> if LStr key \<in> set header then Some (LStr key) else None)"

text \<open>The headers the user's mapping maps, once each, in the mapping's order.\<close>

definition mapped_headers :: "label list \<Rightarrow> (string, string) dict \<Rightarrow> label list" where
  "mapped_headers header mapped =
     unique_in_order (List.map_filter (header_for header) (dict_keys mapped))"

text \<open>The unmatched headers of a log, as a set; none for \<open>NULL\<close>.\<close>

definition unmatched_set :: "file_processing_log \<Rightarrow> label set" where
  "unmatched_set l = (case log_unmatched_columns l of None \<Rightarrow> {} | Some u \<Rightarrow> set u)"

text \<open>
  A correction: the file has the headers \<open>p_name\<close>, \<open>X\<close> and \<open>mat\<close> and two rows, the
  user maps all three and a header \<open>runs\<close> the file lacks, and the file's log holds \<open>X\<close>
  and \<open>Y\<close> as unmatched.
\<close>

definition correction_frame :: dataframe where
  "correction_frame =
     \<lparr>columns = [LStr ''p_name'', LStr ''X'', LStr ''mat''],
      rows = [[CStr ''A'', CStr ''q'', CInt 3], [CStr ''B'', CFloat NaN, CFloat NaN]]\<rparr>"

definition correction_world :: world where
  "correction_world = offline\<lparr>pd_read_csv := (\<lambda>p. Inr correction_frame)\<rparr>"

definition correction_request :: request where
  "correction_request =
     \<lparr>file_id = 7,
      user_mapping =
        [(''p_name'', ''Player Name''), (''X'', ''Average''), (''mat'', ''Matches''),
         (''runs'', ''Total Runs'')],
      path = ''f.csv'', file_type = ''csv''\<rparr>"

definition prior_log :: file_processing_log where
  "prior_log =
     \<lparr>log_file_id = 7, log_matched_columns = Some [],
      log_unmatched_columns = Some [LStr ''X'', LStr ''Y''],
      log_total_records = Some 2, log_status = Some ''Rejected''\<rparr>"

definition empty_db :: db where
  "empty_db =
     \<lparr>file_uploads = [], logs = [], players = [], battings = [], bowlings = [],
      file_seq = 0, player_seq = 0\<rparr>"

definition logged_db :: db where
  "logged_db = empty_db\<lparr>logs := [prior_log]\<rparr>"

text \<open>
  The store after \<open>save_rejected_files\<close> has recorded the upload \<open>scores.csv\<close>, and
  the same correction for that file.
\<close>

definition rejected_db :: db where
  "rejected_db = snd (save_rejected_files ''scores.csv'' empty_db)"

definition rejected_request :: request where
  "rejected_request = correction_request\<lparr>file_id := fst (save_rejected_files ''scores.csv'' empty_db)\<rparr>"

text \<open>
  A correction of a file whose column \<open>mat\<close> holds an infinite float in its first row;
  the file has a log with lists.
\<close>

definition overflow_frame :: dataframe where
  "overflow_frame =
     \<lparr>columns = [LStr ''p_name'', LStr ''mat''],
      rows = [[CStr ''A'', CFloat PosInf], [CStr ''B'', CFloat (Finite 3)]]\<rparr>"

definition overflow_world :: world where
  "overflow_world = offline\<lparr>pd_read_csv := (\<lambda>p. Inr overflow_frame)\<rparr>"

definition overflow_request :: request where
  "overflow_request =
     \<lparr>file_id = 7, user_mapping = [(''p_name'', ''Player Name''), (''mat'', ''Matches'')],
      path = ''g.csv'', file_type = ''csv''\<rparr>"

definition overflow_records :: "(label, cell) dict list" where
  "overflow_records =
     [[(LStr ''Player Name'', CStr ''A''), (LStr ''Matches'', CFloat PosInf),
       (LStr ''Innings'', CStr ''-''), (LStr ''Total Runs'', CStr ''-''),
       (LStr ''Highest Score'', CStr ''-''), (LStr ''Average'', CStr ''-''),
       (LStr ''Wickets'', CStr ''-''), (LStr ''Centuries'', CStr ''-''),
       (LStr ''Half Centuries'', CStr ''-''), (LStr ''Fifers'', CStr ''-''),
       (LStr ''Best Bowling Figures'', CStr ''-'')],
      [(LStr ''Player Name'', CStr ''B''), (LStr ''Matches'', CFloat (Finite 3)),
       (LStr ''Innings'', CStr ''-''), (LStr ''Total Runs'', CStr ''-''),
       (LStr ''Highest Score'', CStr ''-''), (LStr ''Average'', CStr ''-''),
       (LStr ''Wickets'', CStr ''-''), (LStr ''Centuries'', CStr ''-''),
       (LStr ''Half Centuries'', CStr ''-''), (LStr ''Fifers'', CStr ''-''),
       (LStr ''Best Bowling Figures'', CStr ''-'')]]"

text \<open>The column a canonical field's values come from: the last column of the projected
  frame that the mapping renames to the field.\<close>

definition source_column :: "(label, string) dict \<Rightarrow> label list \<Rightarrow> string \<Rightarrow> nat option" where
  "source_column m cols c =
     (case positions (map (rename_label m) cols) (LStr c) of
        [] \<Rightarrow> None
      | j # js \<Rightarrow> Some (last (j # js)))"

text \<open>A value \<open>int\<close> (\<open>float\<close>) does not read as a number: \<open>None\<close>, NaN, or a text that
  is no numeral.\<close>

definition unparseable_int :: "cell \<Rightarrow> bool" where
  "unparseable_int v =
     (case v of
        CNone \<Rightarrow> True
      | CStr s \<Rightarrow> parse_int s = None
      | CInt i \<Rightarrow> False
      | CBool b \<Rightarrow> False
      | CFloat f \<Rightarrow> f = NaN)"

definition unparseable_float :: "cell \<Rightarrow> bool" where
  "unparseable_float v =
     (case v of
        CNone \<Rightarrow> True
      | CStr s \<Rightarrow> \<not> is_float_literal s
      | CInt i \<Rightarrow> False
      | CBool b \<Rightarrow> False
      | CFloat f \<Rightarrow> False)"

text \<open>The user's mapping restricted to the headers of the file.\<close>

definition correction_mapping :: "(label, string) dict" where
  "correction_mapping =
     [(LStr ''p_name'', ''Player Name''), (LStr ''X'', ''Average''), (LStr ''mat'', ''Matches'')]"

text \<open>The canonical records of that correction.\<close>

definition correction_records :: "(label, cell) dict list" where
  "correction_records =
     [[(LStr ''Player Name'', CStr ''A''), (LStr ''Matches'', CInt 3),
       (LStr ''Innings'', CStr ''-''), (LStr ''Total Runs'', CStr ''-''),
       (LStr ''Highest Score'', CStr ''-''), (LStr ''Average'', CStr ''q''),
       (LStr ''Wickets'', CStr ''-''), (LStr ''Centuries'', CStr ''-''),
       (LStr ''Half Centuries'', CStr ''-''), (LStr ''Fifers'', CStr ''-''),
       (LStr ''Best Bowling Figures'', CStr ''-'')],
      [(LStr ''Player Name'', CStr ''B''), (LStr ''Matches'', CStr []),
       (LStr ''Innings'', CStr ''-''), (LStr ''Total Runs'', CStr ''-''),
       (LStr ''Highest Score'', CStr ''-''), (LStr ''Average'', CStr []),
       (LStr ''Wickets'', CStr ''-''), (LStr ''Centuries'', CStr ''-''),
       (LStr ''Half Centuries'', CStr ''-''), (LStr ''Fifers'', CStr ''-''),
       (LStr ''Best Bowling Figures'', CStr ''-'')]]"

text \<open>The rows written for a record hold 0 (0.0 for the average) in every numeric field
  whose cell in the record does not read as a number.\<close>

definition zero_for_unparseable ::
  "(label, cell) dict \<Rightarrow> player \<Rightarrow> batting \<Rightarrow> bowling \<Rightarrow> bool" where
  "zero_for_unparseable row p ba bo =
     ((unparseable_int (get_or_none row (LStr ''Matches'')) \<longrightarrow> matches p = 0)
    \<and> (unparseable_int (get_or_none row (LStr ''Innings'')) \<longrightarrow> innings p = 0)
    \<and> (unparseable_int (get_or_none row (LStr ''Total Runs'')) \<longrightarrow> total_runs ba = 0)
    \<and> (unparseable_int (get_or_none row (LStr ''Centuries'')) \<longrightarrow> century ba = 0)
    \<and> (unparseable_int (get_or_none row (LStr ''Half Centuries'')) \<longrightarrow> half_century ba = 0)
    \<and> (unparseable_int (get_or_none row (LStr ''Wickets'')) \<longrightarrow> wickets bo = 0)
    \<and> (unparseable_int (get_or_none row (LStr ''Fifers'')) \<longrightarrow> five_wickets bo = 0)
    \<and> (unparseable_float (get_or_none row (LStr ''Average'')) \<longrightarrow>
          average ba = Exactly (Finite 0)))"

text \<open>
  The extractor in the specification's words, over the lines of a document in order: a
  line with \<open>':'\<close> is split at the first one and both sides are trimmed; when both are
  non-empty, a label already seen closes the open record and opens a new one with the
  pair, and a new label is added to the open record; every other line changes nothing; at
  the end the open record is emitted when it is non-empty.
\<close>

definition kv_step :: "kv_state \<Rightarrow> string \<Rightarrow> kv_state" where
  "kv_step st line =
     (case st of (emitted, open_record, seen) \<Rightarrow>
        if CHR '':'' \<in> set line
        then (let label = py_strip (fst (split_first CHR '':'' line));
                  val = py_strip (snd (split_first CHR '':'' line))
              in if label \<noteq> [] \<and> val \<noteq> []
                 then (if label \<in> seen
                       then (emitted @ [open_record], [(label, val)], {label})
                       else (emitted, dict_set open_record label val, insert label seen))
                 else st)
        else st)"

definition kv_records :: "string list \<Rightarrow> (string, string) dict list" where
  "kv_records lines =
     (case foldl kv_step ([], [], {}) lines of
        (emitted, open_record, seen) \<Rightarrow>
          if open_record \<noteq> [] then emitted @ [open_record] else emitted)"

section \<open>The alias table\<close>

text \<open>The alias table the module builds once, computed.\<close>

lemma flat_map_eval [code]: "flat_map =
    [(''player name'', ''Player Name''), (''p_name'', ''Player Name''),
     (''player'', ''Player Name''), (''name'', ''Player Name''),
     (''full_name'', ''Player Name''), (''player_name'', ''Player Name''),
     (''player_full_name'', ''Player Name''), (''player_full'', ''Player Name''),
     (''matches'', ''Matches''), (''mat'', ''Matches''), (''match_count'', ''Matches''),
     (''total_matches'', ''Matches''), (''games'', ''Matches''),
     (''total_games'', ''Matches''), (''matches_played'', ''Matches''),
     (''matches_count'', ''Matches''), (''innings'', ''Innings''), (''inns'', ''Innings''),
     (''innings_count'', ''Innings''), (''played_innings'', ''Innings''),
     (''total_innings'', ''Innings''), (''innings_played'', ''Innings''),
     (''total runs'', ''Total Runs''), (''runs'', ''Total Runs''),
     (''total_score'', ''Total Runs''), (''r_total'', ''Total Runs''),
     (''total_runs'', ''Total Runs''), (''runs_scored'', ''Total Runs''),
     (''total_runs_scored'', ''Total Runs''), (''highest score'', ''Highest Score''),
     (''hs'', ''Highest Score''), (''max_score'', ''Highest Score''),
     (''top_score'', ''Highest Score''), (''highest'', ''Highest Score''),
     (''highest_score'', ''Highest Score''), (''average'', ''Average''),
     (''ave'', ''Average''), (''bat_avg'', ''Average''), (''average_runs'', ''Average''),
     (''avg'', ''Average''), (''batting_average'', ''Average''),
     (''wickets'', ''Wickets''), (''wkt'', ''Wickets''), (''wickets_taken'', ''Wickets''),
     (''total_wickets'', ''Wickets''), (''wicket_count'', ''Wickets''),
     (''centuries'', ''Centuries''), (''100s'', ''Centuries''),
     (''century'', ''Centuries''), (''100'', ''Centuries''),
     (''half centuries'', ''Half Centuries''), (''50s'', ''Half Centuries''),
     (''half_centuries'', ''Half Centuries''), (''50'', ''Half Centuries''),
     (''half_century'', ''Half Centuries''), (''fifty'', ''Half Centuries''),
     (''fifers'', ''Fifers''), (''five_wkts'', ''Fifers''), (''5_wickets'', ''Fifers''),
     (''5'', ''Fifers''), (''fifer'', ''Fifers''), (''five_wicket_haul'', ''Fifers''),
     (''best bowling figures'', ''Best Bowling Figures''),
     (''bbf'', ''Best Bowling Figures''), (''best_figures'', ''Best Bowling Figures''),
     (''best_bowling'', ''Best Bowling Figures''),
     (''best_bowling_figures'', ''Best Bowling Figures''),
     (''best_bowling_figure'', ''Best Bowling Figures'')]"
  by code_simp

section \<open>The shared tail and the two tiers\<close>

lemma select_filtered:
  "\<exists>md. select_columns df (filter (\<lambda>k. k \<in> set (columns df)) ks) = Inr md"
  by (simp add: select_columns_def list_all_iff Let_def)

lemma summarize_total:
  "\<exists>md. summarize p df m u = Inr (summary_for p (len_frame df) m u, md, m)"
proof (cases "m = []")
  case True
  then show ?thesis by (simp add: summarize_def summary_for_def Let_def)
next
  case False
  obtain md where
    "select_columns df (filter (\<lambda>k. k \<in> set (columns df)) (dict_keys m)) = Inr md"
    using select_filtered by blast
  with False show ?thesis by (simp add: summarize_def summary_for_def Let_def)
qed

lemma process_tabular_resolved:
  assumes "load_tabular w p = Inr df" and "resolve_mapping w df = Inr (m, u)"
  shows "\<exists>md. process_tabular w p = (summary_for p (len_frame df) m u, md, m)"
proof -
  obtain md where "summarize p df m u = Inr (summary_for p (len_frame df) m u, md, m)"
    using summarize_total by blast
  with assms show ?thesis by (simp add: process_tabular_def)
qed

lemma process_document_resolved:
  assumes "p \<noteq> []" and "load_document w p = df" and "\<not> is_empty df"
    and "resolve_mapping w df = Inr (m, u)"
  shows "\<exists>md. process_document w p = Tuple3 (summary_for p (len_frame df) m u) md m"
proof -
  obtain md where "summarize p df m u = Inr (summary_for p (len_frame df) m u, md, m)"
    using summarize_total by blast
  with assms show ?thesis by (simp add: process_document_def Let_def)
qed

text \<open>The generative tier raises on every pass: \<open>model\<close> is the encoder, and a text is
  not indexed by a key.\<close>

lemma generative_mapping_fails: "\<exists>e. generative_mapping w c hs = Inl e"
  by (simp add: generative_mapping_def generate_content_def model_def split: sum.splits)

lemma resolve_mapping_is_fuzzy:
  "resolve_mapping w df = fuzzy_match_columns (get_close_matches w) (columns df)"
  using generative_mapping_fails [of w "to_string w (df\<lparr>rows := take 10 (rows df)\<rparr>)" "columns df"]
  by (auto simp: resolve_mapping_def)

section \<open>The acceptance rule\<close>

text \<open>
  C1 (as amended). For a file of \<open>n\<close> rows whose resolved mapping is \<open>m\<close>, the summary of
  \<open>process_tabular\<close> and of \<open>process_document\<close> has \<open>total_records = n\<close>,
  \<open>accepted_records = n\<close> when \<open>m\<close> maps at least 6 headers and 0 otherwise,
  \<open>rejected_records = n - accepted_records\<close>, and the status \<open>Accepted\<close> when
  \<open>accepted_records > 0\<close>, else \<open>Rejected\<close>. The count is of the mapping's entries, not
  of the distinct canonical fields they name.
\<close>

theorem acceptance_counts_mapped_headers:
  assumes "resolve_mapping w df = Inr (m, u)"
  shows "(load_tabular w p = Inr df \<longrightarrow>
            fst (process_tabular w p) = summary_for p (len_frame df) m u)
       \<and> (p \<noteq> [] \<and> load_document w p = df \<and> \<not> is_empty df \<longrightarrow>
            summary_of (process_document w p) = summary_for p (len_frame df) m u)"
  using process_tabular_resolved [OF _ assms, of p]
    process_document_resolved [OF _ _ _ assms, of p]
  by (auto simp: summary_of_def)

text \<open>
  A CSV file of two rows with six mapped headers is accepted with both rows; a document of
  two records with three mapped headers is rejected.
\<close>

theorem acceptance_counts_mapped_headers_witness:
  "fst (process_tabular six_names_world ''players.csv'') =
     summary_for ''players.csv'' 2 six_names_mapping []
   \<and> accepted_records (summary_for ''players.csv'' 2 six_names_mapping []) = 2
   \<and> summary_of (process_document two_players_world ''players.docx'') =
     summary_for ''players.docx'' 2 two_players_mapping []
   \<and> accepted_records (summary_for ''players.docx'' 2 two_players_mapping []) = 0"
proof -
  have r1: "resolve_mapping six_names_world six_names = Inr (six_names_mapping, [])"
    by code_simp
  have l1: "load_tabular six_names_world ''players.csv'' = Inr six_names"
    by code_simp
  have r2: "resolve_mapping two_players_world two_players_frame = Inr (two_players_mapping, [])"
    by code_simp
  have l2: "''players.docx'' \<noteq> []
      \<and> load_document two_players_world ''players.docx'' = two_players_frame
      \<and> \<not> is_empty two_players_frame"
    by code_simp
  have n1: "len_frame six_names = 2" by code_simp
  have n2: "len_frame two_players_frame = 2" by code_simp
  have a1: "accepted_records (summary_for ''players.csv'' 2 six_names_mapping []) = 2"
    by code_simp
  have a2: "accepted_records (summary_for ''players.docx'' 2 two_players_mapping []) = 0"
    by code_simp
  from acceptance_counts_mapped_headers [OF r1, of "''players.csv''"]
    acceptance_counts_mapped_headers [OF r2, of "''players.docx''"] l1 l2 n1 n2 a1 a2
  show ?thesis by simp
qed

text \<open>
  The claim as stated fails: six headers that all name the player give a mapping that
  covers one canonical field, and both rows are accepted, where the rule by distinct
  fields accepts none.
\<close>

theorem acceptance_by_distinct_fields_counterexample:
  "accepted_records (fst (process_tabular six_names_world ''players.csv'')) = 2
   \<and> accepted_by_distinct_fields
        (matched_columns (fst (process_tabular six_names_world ''players.csv'')))
        (total_records (fst (process_tabular six_names_world ''players.csv''))) = 0"
  by code_simp

section \<open>The key-value block extractor\<close>

text \<open>Trimming a line does not change where its first \<open>':'\<close> splits it, so both
  extractors take the step \<open>kv_step\<close> on every line.\<close>

lemma colon_no_space: "\<not> is_space CHR '':''"
  by code_simp

lemma strip_left: "\<forall>x \<in> set a. is_space x \<Longrightarrow> py_strip (a @ s) = py_strip s"
  by (simp add: py_strip_def)

lemma strip_spaces: "\<forall>x \<in> set s. is_space x \<Longrightarrow> py_strip s = []"
  by (auto simp: py_strip_def dest: set_dropWhileD)

lemma strip_right:
  assumes "\<forall>x \<in> set b. is_space x"
  shows "py_strip (s @ b) = py_strip s"
proof (cases "\<forall>x \<in> set s. is_space x")
  case True
  with assms have "\<forall>x \<in> set (s @ b). is_space x" by auto
  then have "py_strip (s @ b) = []" by (rule strip_spaces)
  with True show ?thesis by (simp add: strip_spaces)
next
  case False
  then obtain x where "x \<in> set s" "\<not> is_space x" by blast
  then have d: "dropWhile is_space (s @ b) = dropWhile is_space s @ b"
    by (rule dropWhile_append1)
  have "dropWhile is_space (rev b @ z) = dropWhile is_space z" for z
    using assms by (intro dropWhile_append2) simp
  then show ?thesis
    by (simp add: py_strip_def d)
qed

lemma strip_decomposition:
  "\<exists>a b. s = a @ py_strip s @ b \<and> (\<forall>x \<in> set a. is_space x) \<and> (\<forall>x \<in> set b. is_space x)"
proof -
  let ?s' = "dropWhile is_space s"
  have "rev ?s' = takeWhile is_space (rev ?s') @ dropWhile is_space (rev ?s')"
    by simp
  then have "?s' = py_strip s @ rev (takeWhile is_space (rev ?s'))"
    by (metis py_strip_def rev_append rev_rev_ident)
  then have "s = takeWhile is_space s @ py_strip s @ rev (takeWhile is_space (rev ?s'))"
    by (metis takeWhile_dropWhile_id)
  moreover have "\<forall>x \<in> set (takeWhile is_space s). is_space x"
    by (auto dest: set_takeWhileD)
  moreover have "\<forall>x \<in> set (rev (takeWhile is_space (rev ?s'))). is_space x"
    by (auto dest: set_takeWhileD)
  ultimately show ?thesis by blast
qed

lemma colon_in_strip: "CHR '':'' \<in> set (py_strip s) \<longleftrightarrow> CHR '':'' \<in> set s"
proof -
  obtain a b where s: "s = a @ py_strip s @ b"
    and a: "\<forall>x \<in> set a. is_space x" and b: "\<forall>x \<in> set b. is_space x"
    using strip_decomposition by blast
  have "set s = set a \<union> set (py_strip s) \<union> set b"
    by (subst s) auto
  with a b colon_no_space show ?thesis by auto
qed

lemma split_strip:
  assumes "CHR '':'' \<in> set s"
  shows "py_strip (fst (split_first CHR '':'' (py_strip s))) =
           py_strip (fst (split_first CHR '':'' s))"
    and "py_strip (snd (split_first CHR '':'' (py_strip s))) =
           py_strip (snd (split_first CHR '':'' s))"
proof -
  obtain a b where s: "s = a @ py_strip s @ b"
    and a: "\<forall>x \<in> set a. is_space x" and b: "\<forall>x \<in> set b. is_space x"
    using strip_decomposition by blast
  let ?m = "py_strip s"
  let ?P = "\<lambda>x. x \<noteq> CHR '':''"
  have m: "CHR '':'' \<in> set ?m"
    using assms by (simp add: colon_in_strip)
  have an: "\<forall>x \<in> set a. ?P x"
    using a colon_no_space by auto
  have "takeWhile ?P (a @ ?m @ b) = a @ takeWhile ?P (?m @ b)"
    using an by simp
  also have "takeWhile ?P (?m @ b) = takeWhile ?P ?m"
    using m by (intro takeWhile_append1 [of "CHR '':''"]) auto
  finally have t: "takeWhile ?P s = a @ takeWhile ?P ?m"
    using s by simp
  have "dropWhile ?P (a @ ?m @ b) = dropWhile ?P (?m @ b)"
    using an by simp
  also have "\<dots> = dropWhile ?P ?m @ b"
    using m by (intro dropWhile_append1 [of "CHR '':''"]) auto
  finally have d: "dropWhile ?P s = dropWhile ?P ?m @ b"
    using s by simp
  have ne: "dropWhile ?P ?m \<noteq> []"
    using m by simp
  show "py_strip (fst (split_first CHR '':'' (py_strip s))) =
           py_strip (fst (split_first CHR '':'' s))"
    by (simp add: split_first_def t strip_left [OF a])
  show "py_strip (snd (split_first CHR '':'' (py_strip s))) =
           py_strip (snd (split_first CHR '':'' s))"
    using ne by (simp add: split_first_def d strip_right [OF b])
qed

lemma kv_line_step: "CHR '':'' \<in> set line \<Longrightarrow> kv_line st line = kv_step st line"
  by (cases st) (auto simp: kv_line_def kv_step_def Let_def)

lemma pdf_line_step: "pdf_line st line = kv_step st line"
  by (cases st) (auto simp: pdf_line_def kv_line_step kv_step_def)

lemma kv_step_strip: "kv_step st (py_strip line) = kv_step st line"
  by (cases st) (simp add: kv_step_def colon_in_strip split_strip)

lemma docx_paragraph_step: "docx_paragraph st para = kv_step st para"
proof (cases "CHR '':'' \<in> set para")
  case True
  then have c: "CHR '':'' \<in> set (py_strip para)"
    by (simp add: colon_in_strip)
  then have "py_strip para \<noteq> []" by auto
  with c show ?thesis
    by (simp add: docx_paragraph_def Let_def kv_line_step kv_step_strip)
next
  case False
  then have "CHR '':'' \<notin> set (py_strip para)"
    by (simp add: colon_in_strip)
  with False show ?thesis
    by (cases st) (simp add: docx_paragraph_def Let_def kv_step_def)
qed

text \<open>A DOCX document, and a PDF document of one page, are extracted as the
  specification says.\<close>

lemma docx_records_spec: "docx_records paragraphs = kv_records paragraphs"
proof -
  have "docx_paragraph = kv_step"
    by (intro ext) (rule docx_paragraph_step)
  then show ?thesis
    by (simp add: docx_records_def kv_records_def)
qed

lemma pdf_one_page_spec:
  "pdf_records [Some content] = Inr (kv_records (py_split CHR 0x0A content))"
proof -
  have "pdf_line = kv_step"
    by (intro ext) (rule pdf_line_step)
  then show ?thesis
    by (simp add: pdf_records_def pdf_page_def kv_records_def split: prod.splits)
qed

lemma kv_step_no_separator: "CHR '':'' \<notin> set line \<Longrightarrow> kv_step st line = st"
  by (cases st) (simp add: kv_step_def)

lemma foldl_kv_step_no_separator:
  "\<forall>line \<in> set lines. CHR '':'' \<notin> set line \<Longrightarrow> foldl kv_step st lines = st"
  by (induction lines arbitrary: st) (simp_all add: kv_step_no_separator)

lemma kv_records_no_separator:
  "\<forall>line \<in> set lines. CHR '':'' \<notin> set line \<Longrightarrow> kv_records lines = []"
  by (simp add: kv_records_def foldl_kv_step_no_separator)

text \<open>
  C2. The claim: a label already seen in the open record closes that record, over the
  lines of all pages in order, so the four lines \<open>Name: A\<close>, \<open>Runs: 1\<close>, \<open>Name: B\<close>,
  \<open>Runs: 2\<close> give two records. The PDF extractor forgets the seen labels at every page:
  with the first two lines on one page and the last two on the next it returns the single
  record of B, while the same lines on one page, and as DOCX paragraphs, give the two
  records.
\<close>

theorem pdf_page_break_merges_records:
  "pdf_records [Some (''Name: A'' @ [CHR 0x0A] @ ''Runs: 1''),
                Some (''Name: B'' @ [CHR 0x0A] @ ''Runs: 2'')] =
     Inr [[(''Name'', ''B''), (''Runs'', ''2'')]]
   \<and> pdf_records [Some (''Name: A'' @ [CHR 0x0A] @ ''Runs: 1'' @ [CHR 0x0A] @ ''Name: B''
                         @ [CHR 0x0A] @ ''Runs: 2'')] =
     Inr [[(''Name'', ''A''), (''Runs'', ''1'')], [(''Name'', ''B''), (''Runs'', ''2'')]]
   \<and> docx_records [''Name: A'', ''Runs: 1'', ''Name: B'', ''Runs: 2''] =
     [[(''Name'', ''A''), (''Runs'', ''1'')], [(''Name'', ''B''), (''Runs'', ''2'')]]"
  by code_simp

section \<open>The generative tier\<close>

text \<open>
  C3. The claim: when the completion service answers in the agreed format, the resolved
  mapping and the unmatched list are the answer's, and the fuzzy matcher is not consulted.
  Here the service answers that \<open>zzz\<close> is \<open>Matches\<close> and that nothing is unmatched; the
  pass returns the fuzzy matcher's result instead: no mapping, \<open>zzz\<close> unmatched.
\<close>

theorem conforming_response_is_not_used:
  "completion answering_world (Prompt [] (dict_keys schema_mapping) [''zzz'']) =
     Inr conforming_response
   \<and> process_tabular answering_world ''z.csv'' =
       (summary_for ''z.csv'' 1 [] [LStr ''zzz''], empty_frame, [])
   \<and> fuzzy_match_columns (get_close_matches answering_world) [LStr ''zzz''] =
       Inr ([], [LStr ''zzz''])"
  by code_simp

section \<open>Documents without a separator\<close>

text \<open>A document whose extractor finds nothing: \<open>process_document\<close> returns its pair,
  and the document branch of \<open>analyze_file\<close> raises.\<close>

lemma empty_document:
  assumes "p \<noteq> []" and "is_empty (load_document w p)"
  shows "process_document w p = Tuple2 (rejected_summary p) empty_frame"
    and "analyze_document w p = Inl RuntimeError"
proof -
  show pd: "process_document w p = Tuple2 (rejected_summary p) empty_frame"
    using assms by (simp add: process_document_def Let_def)
  show "analyze_document w p = Inl RuntimeError"
    by (simp add: analyze_document_def pd unpack3_def split: sum.splits)
qed

lemma frame_of_no_records: "is_empty (frame_of_records [])"
  by (simp add: frame_of_records_def is_empty_def unique_in_order_def)

lemma empty_frame_empty: "is_empty empty_frame"
  by (simp add: empty_frame_def is_empty_def)

lemma docx_without_separator:
  assumes "endswith p ''.docx''" and "docx_paragraphs w p = Inr paragraphs"
    and "\<forall>line \<in> set paragraphs. CHR '':'' \<notin> set line"
  shows "is_empty (load_document w p)"
  using assms
  by (simp add: load_document_def extract_key_value_from_docx_def docx_records_spec
      kv_records_no_separator frame_of_no_records)

lemma pdf_pages_no_separator:
  assumes "\<forall>content. Some content \<in> set pages \<longrightarrow>
             (\<forall>line \<in> set (py_split CHR 0x0A content). CHR '':'' \<notin> set line)"
  shows "pdf_pages st pages = Inr st \<or> pdf_pages st pages = Inl AttributeError"
  using assms
proof (induction pages)
  case Nil
  show ?case by simp
next
  case (Cons page pages)
  show ?case
  proof (cases page)
    case None
    then show ?thesis by (simp add: pdf_page_def)
  next
    case (Some content)
    have "\<forall>line \<in> set (py_split CHR 0x0A content). CHR '':'' \<notin> set line"
      using Cons.prems Some by simp
    moreover have "pdf_line = kv_step"
      by (intro ext) (rule pdf_line_step)
    ultimately have "foldl pdf_line s (py_split CHR 0x0A content) = s" for s
      by (simp add: foldl_kv_step_no_separator)
    then have "pdf_page st page = Inr st"
      by (cases st) (simp add: pdf_page_def Some)
    with Cons show ?thesis by simp
  qed
qed

lemma pdf_without_separator:
  assumes "\<not> endswith p ''.docx''" and "pdf_page_texts w p = Inr pages"
    and "\<forall>content. Some content \<in> set pages \<longrightarrow>
           (\<forall>line \<in> set (py_split CHR 0x0A content). CHR '':'' \<notin> set line)"
  shows "is_empty (load_document w p)"
proof -
  have "pdf_records pages = Inr [] \<or> pdf_records pages = Inl AttributeError"
    using pdf_pages_no_separator [OF assms(3), of "([], [])"]
    by (auto simp: pdf_records_def)
  with assms(1,2) show ?thesis
    by (auto simp: load_document_def extract_key_value_from_pdf_def frame_of_no_records
        empty_frame_empty)
qed

text \<open>
  C8. The claim: a document in which no line contains \<open>':'\<close> gives zero rows and a summary
  with \<open>total_records = 0\<close>, \<open>accepted_records = 0\<close> and the status \<open>Rejected\<close>, and no
  error reaches the caller. \<open>process_document\<close> returns that summary in a pair;
  \<open>analyze_file\<close> unpacks three values from it and raises.
\<close>

theorem document_without_separator_raises:
  "docx_paragraphs prose_world ''notes.docx'' = Inr [''Season report'', ''No table here'']
   \<and> process_document prose_world ''notes.docx'' =
       Tuple2 (rejected_summary ''notes.docx'') empty_frame
   \<and> analyze_file prose_world ''notes.docx'' = Inl RuntimeError"
  by code_simp

section \<open>The fallback\<close>

lemma analyze_file_csv:
  "detect_file_type w p = Inr (mime, ''csv'') \<Longrightarrow> analyze_file w p = Inr (process_tabular w p)"
  by (simp add: analyze_file_def)

lemma analyze_file_docx:
  "detect_file_type w p = Inr (mime, ''docx'') \<Longrightarrow> analyze_file w p = analyze_document w p"
  by (simp add: analyze_file_def)

text \<open>
  C4. When the generative tier raises, whatever the exception, the resolved mapping and
  the unmatched list are the fuzzy matcher's on the file's headers, and the pass returns
  its summary with them: \<open>process_tabular\<close> and \<open>process_document\<close> return, and
  \<open>analyze_file\<close> hands their result to its caller.
\<close>

theorem generative_failure_falls_back_to_fuzzy:
  assumes "generative_mapping w (to_string w (df\<lparr>rows := take 10 (rows df)\<rparr>)) (columns df) =
             Inl e"
  shows "resolve_mapping w df = fuzzy_match_columns (get_close_matches w) (columns df)
     \<and> (fuzzy_match_columns (get_close_matches w) (columns df) = Inr (m, u) \<longrightarrow>
          (load_tabular w p = Inr df \<longrightarrow>
             (\<exists>md. process_tabular w p = (summary_for p (len_frame df) m u, md, m)))
        \<and> (load_tabular w p = Inr df \<and> detect_file_type w p = Inr (mime, ''csv'') \<longrightarrow>
             (\<exists>md. analyze_file w p = Inr (summary_for p (len_frame df) m u, md, m)))
        \<and> (p \<noteq> [] \<and> load_document w p = df \<and> \<not> is_empty df \<longrightarrow>
             (\<exists>md. process_document w p = Tuple3 (summary_for p (len_frame df) m u) md m))
        \<and> (p \<noteq> [] \<and> load_document w p = df \<and> \<not> is_empty df
             \<and> detect_file_type w p = Inr (mime, ''docx'') \<and> load_file w p = Inr () \<longrightarrow>
             (\<exists>md. analyze_file w p = Inr (summary_for p (len_frame df) m u, md, m))))"
proof -
  have fb: "resolve_mapping w df = fuzzy_match_columns (get_close_matches w) (columns df)"
    using assms by (simp add: resolve_mapping_def)
  have "fuzzy_match_columns (get_close_matches w) (columns df) = Inr (m, u) \<Longrightarrow>
      load_tabular w p = Inr df \<Longrightarrow>
      \<exists>md. process_tabular w p = (summary_for p (len_frame df) m u, md, m)"
    using fb process_tabular_resolved by simp
  moreover have "fuzzy_match_columns (get_close_matches w) (columns df) = Inr (m, u) \<Longrightarrow>
      p \<noteq> [] \<and> load_document w p = df \<and> \<not> is_empty df \<Longrightarrow>
      \<exists>md. process_document w p = Tuple3 (summary_for p (len_frame df) m u) md m"
    using fb process_document_resolved by simp
  ultimately show ?thesis
    using fb by (auto simp: analyze_file_csv analyze_file_docx analyze_document_def unpack3_def)
qed

text \<open>Both example files: the tier raises \<open>AttributeError\<close>, and the caller of
  \<open>analyze_file\<close> receives the summary built from the fuzzy matcher's mapping.\<close>

theorem generative_failure_falls_back_to_fuzzy_witness:
  "resolve_mapping six_names_world six_names =
     fuzzy_match_columns exact_matches (columns six_names)
   \<and> (\<exists>md. analyze_file six_names_world ''players.csv'' =
         Inr (summary_for ''players.csv'' 2 six_names_mapping [], md, six_names_mapping))
   \<and> (\<exists>md. analyze_file two_players_world ''players.docx'' =
         Inr (summary_for ''players.docx'' 2 two_players_mapping [], md, two_players_mapping))"
proof -
  have g1: "generative_mapping six_names_world
      (to_string six_names_world (six_names\<lparr>rows := take 10 (rows six_names)\<rparr>))
      (columns six_names) = Inl AttributeError"
    by code_simp
  have f1: "fuzzy_match_columns (get_close_matches six_names_world) (columns six_names) =
      Inr (six_names_mapping, [])"
    by code_simp
  have l1: "load_tabular six_names_world ''players.csv'' = Inr six_names
      \<and> detect_file_type six_names_world ''players.csv'' = Inr (''text/csv'', ''csv'')"
    by code_simp
  have g2: "generative_mapping two_players_world
      (to_string two_players_world
         (two_players_frame\<lparr>rows := take 10 (rows two_players_frame)\<rparr>))
      (columns two_players_frame) = Inl AttributeError"
    by code_simp
  have f2: "fuzzy_match_columns (get_close_matches two_players_world)
      (columns two_players_frame) = Inr (two_players_mapping, [])"
    by code_simp
  have l2: "''players.docx'' \<noteq> []
      \<and> load_document two_players_world ''players.docx'' = two_players_frame
      \<and> \<not> is_empty two_players_frame
      \<and> detect_file_type two_players_world ''players.docx'' =
          Inr (''application/msword'', ''docx'')
      \<and> load_file two_players_world ''players.docx'' = Inr ()"
    by code_simp
  have n: "len_frame six_names = 2 \<and> len_frame two_players_frame = 2
      \<and> get_close_matches six_names_world = exact_matches"
    by (simp add: len_frame_def six_names_def two_players_frame_def six_names_world_def
        offline_def)
  from generative_failure_falls_back_to_fuzzy
      [OF g1, of six_names_mapping "[]" "''players.csv''" "''text/csv''"]
    generative_failure_falls_back_to_fuzzy
      [OF g2, of two_players_mapping "[]" "''players.docx''" "''application/msword''"]
    f1 l1 f2 l2 n
  show ?thesis by simp
qed

section \<open>The fuzzy matcher\<close>

lemma fuzzy_loop_agree:
  assumes "\<forall>h \<in> set hs. \<forall>s. h = LStr s \<longrightarrow>
             g1 (py_lower s) (dict_keys flat_map) 1 (7 / 10) =
             g2 (py_lower s) (dict_keys flat_map) 1 (7 / 10)"
  shows "fuzzy_loop g1 st hs = fuzzy_loop g2 st hs"
  using assms
proof (induction hs arbitrary: st)
  case Nil
  then show ?case by (cases st) simp
next
  case (Cons h hs)
  obtain m u where st: "st = (m, u)" by (cases st)
  show ?case
  proof (cases h)
    case (LStr s)
    with Cons.prems have
      "g1 (py_lower s) (dict_keys flat_map) 1 (7 / 10) =
       g2 (py_lower s) (dict_keys flat_map) 1 (7 / 10)"
      by simp
    with Cons LStr st show ?thesis
      by (simp add: label_lower_def split: list.splits sum.splits)
  next
    case (LInt i)
    with st show ?thesis by (simp add: label_lower_def)
  qed
qed

text \<open>
  C9. Two runs of the fuzzy matcher on the same headers give the same mapping and the
  same unmatched list: the result depends on nothing but the headers and what
  \<open>get_close_matches\<close> answers for each lower-cased header against the alias table's keys
  with \<open>n = 1\<close> and the cutoff 0.7. The alias table and the cutoff are constants of the
  module.
\<close>

theorem fuzzy_match_columns_determined:
  assumes "\<forall>h \<in> set headers. \<forall>s. h = LStr s \<longrightarrow>
             ga (py_lower s) (dict_keys flat_map) 1 (7 / 10) =
             gb (py_lower s) (dict_keys flat_map) 1 (7 / 10)"
  shows "fuzzy_match_columns ga headers = fuzzy_match_columns gb headers"
  unfolding fuzzy_match_columns_def using assms by (rule fuzzy_loop_agree)

theorem fuzzy_match_columns_determined_witness:
  "fuzzy_match_columns exact_matches [LStr ''P_Name'', LStr ''zzz''] =
     fuzzy_match_columns single_matches [LStr ''P_Name'', LStr ''zzz'']
   \<and> fuzzy_match_columns exact_matches [LStr ''P_Name'', LStr ''zzz''] =
     Inr ([(LStr ''P_Name'', ''Player Name'')], [LStr ''zzz''])"
proof -
  have agree: "\<forall>h \<in> set [LStr ''P_Name'', LStr ''zzz'']. \<forall>s. h = LStr s \<longrightarrow>
      exact_matches (py_lower s) (dict_keys flat_map) 1 (7 / 10) =
      single_matches (py_lower s) (dict_keys flat_map) 1 (7 / 10)"
    by (simp add: single_matches_def)
  have same: "fuzzy_match_columns exact_matches [LStr ''P_Name'', LStr ''zzz''] =
      fuzzy_match_columns single_matches [LStr ''P_Name'', LStr ''zzz'']"
    by (rule fuzzy_match_columns_determined
        [where ga = exact_matches and gb = single_matches, OF agree])
  have result: "fuzzy_match_columns exact_matches [LStr ''P_Name'', LStr ''zzz''] =
      Inr ([(LStr ''P_Name'', ''Player Name'')], [LStr ''zzz''])"
    by code_simp
  from same result show ?thesis by simp
qed

section \<open>Dictionaries and lists\<close>

lemma dict_keys_dict_set:
  "dict_keys (dict_set d k v) = (if k \<in> set (dict_keys d) then dict_keys d else dict_keys d @ [k])"
proof (induction d)
  case Nil
  then show ?case by (simp add: dict_keys_def)
next
  case (Cons a d)
  obtain k' v' where a: "a = (k', v')" by (cases a)
  show ?case using Cons by (auto simp: a dict_keys_def)
qed

lemma map_of_dict_set: "map_of (dict_set d k v) = (map_of d)(k \<mapsto> v)"
proof (induction d)
  case Nil
  then show ?case by simp
next
  case (Cons a d)
  obtain k' v' where a: "a = (k', v')" by (cases a)
  show ?case using Cons by (auto simp: a fun_upd_twist)
qed

lemma unique_in_order_snoc:
  "unique_in_order (xs @ [x]) = (if x \<in> set xs then unique_in_order xs else unique_in_order xs @ [x])"
  by (simp add: unique_in_order_def)

lemma set_unique_in_order [simp]: "set (unique_in_order xs) = set xs"
  by (simp add: unique_in_order_def)

lemma distinct_unique_in_order [simp]: "distinct (unique_in_order xs)"
  by (simp add: unique_in_order_def)

lemma unique_in_order_distinct: "distinct xs \<Longrightarrow> unique_in_order xs = xs"
  by (simp add: unique_in_order_def distinct_remdups_id)

lemma dict_keys_foldl_set:
  assumes "distinct (dict_keys d0)"
  shows "dict_keys (foldl (\<lambda>d (k, v). dict_set d k v) d0 ps) =
     unique_in_order (dict_keys d0 @ map fst ps)"
proof (induction ps rule: rev_induct)
  case Nil
  then show ?case using assms by (simp add: unique_in_order_distinct)
next
  case (snoc x ps)
  obtain k v where x: "x = (k, v)" by (cases x)
  let ?d = "foldl (\<lambda>d (k, v). dict_set d k v) d0 ps"
  have keys: "dict_keys ?d = unique_in_order (dict_keys d0 @ map fst ps)"
    using snoc by simp
  have "dict_keys (dict_set ?d k v) = unique_in_order ((dict_keys d0 @ map fst ps) @ [k])"
    unfolding dict_keys_dict_set unique_in_order_snoc keys by simp
  then show ?case by (simp add: x)
qed

lemma dict_keys_dict_of: "dict_keys (dict_of ps) = unique_in_order (map fst ps)"
  using dict_keys_foldl_set [of "[]" ps] by (simp add: dict_of_def dict_keys_def)

lemma map_of_foldl_set:
  "map_of (foldl (\<lambda>d (k, v). dict_set d k v) d0 ps) = map_of d0 ++ map_of (rev ps)"
proof (induction ps rule: rev_induct)
  case Nil
  then show ?case by simp
next
  case (snoc x ps)
  obtain k v where x: "x = (k, v)" by (cases x)
  show ?case
    using snoc by (auto simp: x map_of_dict_set map_add_def fun_eq_iff)
qed

lemma dict_get_dict_of: "dict_get (dict_of ps) k = map_of (rev ps) k"
  by (simp add: dict_get_def dict_of_def map_of_foldl_set)

section \<open>The correction merger\<close>

lemma map_key_header_for:
  "map_key header (cols, nm) (key, val) =
     (case header_for header key of
        None \<Rightarrow> (cols, nm)
      | Some h \<Rightarrow> (cols @ [h], dict_set nm h val))"
  by (simp add: map_key_def header_for_def split: option.splits)

lemma map_filter_snoc:
  "List.map_filter f (xs @ [x]) =
     (case f x of None \<Rightarrow> List.map_filter f xs | Some y \<Rightarrow> List.map_filter f xs @ [y])"
  by (simp add: List.map_filter_def split: option.splits)

lemma dict_values_dict_set:
  "set (dict_values (dict_set d k v)) \<subseteq> insert v (set (dict_values d))"
proof (induction d)
  case Nil
  then show ?case by (simp add: dict_values_def)
next
  case (Cons a d)
  obtain k' v' where a: "a = (k', v')" by (cases a)
  show ?case using Cons by (auto simp: a dict_values_def)
qed

lemma foldl_map_key_snoc:
  "foldl (map_key header) st (mapped @ [(key, val)]) =
     (case header_for header key of
        None \<Rightarrow> foldl (map_key header) st mapped
      | Some h \<Rightarrow> (fst (foldl (map_key header) st mapped) @ [h],
                   dict_set (snd (foldl (map_key header) st mapped)) h val))"
  by (cases "foldl (map_key header) st mapped")
    (simp add: map_key_header_for split: option.splits)

lemma dict_keys_snoc: "dict_keys (d @ [(k, v)]) = dict_keys d @ [k]"
  by (simp add: dict_keys_def)

lemma map_keys_fold_fst:
  "fst (foldl (map_key header) (cols, nm) mapped) =
     cols @ List.map_filter (header_for header) (dict_keys mapped)"
proof (induction mapped rule: rev_induct)
  case Nil
  then show ?case by (simp add: List.map_filter_def dict_keys_def)
next
  case (snoc x mapped)
  obtain key val where x: "x = (key, val)" by (cases x)
  show ?case
    using snoc unfolding x foldl_map_key_snoc dict_keys_snoc map_filter_snoc
    by (simp split: option.splits)
qed

lemma map_keys_fold_keys:
  assumes "distinct (dict_keys nm)"
  shows "dict_keys (snd (foldl (map_key header) (cols, nm) mapped)) =
     unique_in_order (dict_keys nm @ List.map_filter (header_for header) (dict_keys mapped))"
proof (induction mapped rule: rev_induct)
  case Nil
  then show ?case
    using assms by (simp add: List.map_filter_def dict_keys_def unique_in_order_distinct)
next
  case (snoc x mapped)
  obtain key val where x: "x = (key, val)" by (cases x)
  show ?case
  proof (cases "header_for header key")
    case None
    then show ?thesis
      using snoc unfolding x foldl_map_key_snoc dict_keys_snoc map_filter_snoc by simp
  next
    case (Some h)
    have "dict_keys (dict_set (snd (foldl (map_key header) (cols, nm) mapped)) h val) =
        unique_in_order
          ((dict_keys nm @ List.map_filter (header_for header) (dict_keys mapped)) @ [h])"
      unfolding dict_keys_dict_set unique_in_order_snoc snoc by simp
    then show ?thesis
      unfolding x foldl_map_key_snoc dict_keys_snoc map_filter_snoc Some by simp
  qed
qed

lemma map_keys_fold_values:
  "set (dict_values (snd (foldl (map_key header) (cols, nm) mapped))) \<subseteq>
     set (dict_values nm) \<union> set (dict_values mapped)"
proof (induction mapped rule: rev_induct)
  case Nil
  then show ?case by simp
next
  case (snoc x mapped)
  obtain key val where x: "x = (key, val)" by (cases x)
  have v: "set (dict_values (mapped @ [(key, val)])) = insert val (set (dict_values mapped))"
    by (simp add: dict_values_def)
  show ?case
  proof (cases "header_for header key")
    case None
    then show ?thesis
      using snoc unfolding x foldl_map_key_snoc v by auto
  next
    case (Some h)
    then show ?thesis
      using snoc dict_values_dict_set [of "snd (foldl (map_key header) (cols, nm) mapped)" h val]
      unfolding x foldl_map_key_snoc v by auto
  qed
qed

lemma map_keys_eq:
  "fst (map_keys header mapped) = List.map_filter (header_for header) (dict_keys mapped)"
  "dict_keys (snd (map_keys header mapped)) = mapped_headers header mapped"
  "set (dict_values (snd (map_keys header mapped))) \<subseteq> set (dict_values mapped)"
  using map_keys_fold_fst [of header "[]" "[]" mapped]
    map_keys_fold_keys [of "[]" header "[]" mapped]
    map_keys_fold_values [of header "[]" "[]" mapped]
  by (simp_all add: map_keys_def mapped_headers_def dict_keys_def dict_values_def)

lemma persist_rows_frame:
  "persist_rows fid vals st recs = Inr st' \<Longrightarrow> logs (fst st') = logs (fst st)"
proof (induction recs arbitrary: st)
  case Nil
  then show ?case by simp
next
  case (Cons row recs)
  obtain d n u where st: "st = (d, n, u)" by (cases st)
  from Cons.prems show ?case
    by (auto simp: st Let_def split: sum.splits dest!: Cons.IH)
qed

lemma find_replace_log:
  assumes "find (\<lambda>l. log_file_id l = fid) ls = Some l" and "log_file_id l' = fid"
  shows "find (\<lambda>l. log_file_id l = fid) (replace_log fid l' ls) = Some l'"
  using assms by (induction ls) (auto split: if_splits)

lemma merge_log_result:
  assumes "merge_log header nm n l = Inr l'"
  shows "\<exists>u. log_unmatched_columns l = Some u
      \<and> log_file_id l' = log_file_id l
      \<and> log_matched_columns l' = Some (dict_keys nm)
      \<and> log_unmatched_columns l' =
          Some (unique_in_order (u @ filter (\<lambda>col. col \<notin> set (dict_keys nm)) header))
      \<and> log_total_records l' = Some n
      \<and> log_status l' = Some (if dict_keys nm \<noteq> [] then ''accepted'' else ''partial'')"
  using assms by (auto simp: merge_log_def Let_def split: option.splits)

lemma submit_body_merge:
  assumes found: "find_log d (file_id req) = Some l"
    and body: "submit_body w req d = Inr d'"
    and df: "reload w req = Inr df"
  shows "\<exists>n l'. merge_log (columns df) (snd (map_keys (columns df) (user_mapping req))) n l = Inr l'
             \<and> find_log d' (file_id req) = Some l'"
proof -
  from body df obtain recs where recs: "corrected_records (user_mapping req) df = Inr recs"
    by (auto simp: submit_body_def split: sum.splits)
  from body df recs obtain d1 n u where
    pr: "persist_rows (file_id req) (dict_values (user_mapping req)) (d, 0, []) recs = Inr (d1, n, u)"
    by (auto simp: submit_body_def split: sum.splits)
  have logs1: "logs d1 = logs d"
    using persist_rows_frame [OF pr] by simp
  then have f1: "find_log d1 (file_id req) = Some l"
    using found by (simp add: find_log_def)
  from body df recs pr f1 obtain l' where
    m: "merge_log (columns df) (snd (map_keys (columns df) (user_mapping req))) n l = Inr l'"
    and d': "d' = d1\<lparr>logs := replace_log (file_id req) l' (logs d1)\<rparr>"
    by (auto simp: submit_body_def split: sum.splits)
  have "log_file_id l = file_id req"
    using found by (auto simp: find_log_def dest: find_Some_iff [THEN iffD1])
  then have "log_file_id l' = file_id req"
    using merge_log_result [OF m] by auto
  then have "find_log d' (file_id req) = Some l'"
    using found logs1 d' by (simp add: find_log_def find_replace_log)
  with m show ?thesis by blast
qed

text \<open>
  What the branch for a file that has a log stores when the request reaches its commit:
  as matched list the headers of the file that the user's mapping maps (the mapping's
  keys), as unmatched list the prior unmatched headers together with every header of the
  file that is not among those, each once, and the status \<open>accepted\<close> when that
  matched list is not empty, else \<open>partial\<close>.
\<close>

lemma merge_branch_stores:
  assumes "find_log d (file_id req) = Some l"
    and "reload w req = Inr df"
    and "save_submit_columns_data w req d = (Inr ok, d')"
  shows "\<exists>u u' l'. log_unmatched_columns l = Some u
      \<and> find_log d' (file_id req) = Some l'
      \<and> log_matched_columns l' = Some (mapped_headers (columns df) (user_mapping req))
      \<and> log_unmatched_columns l' = Some u' \<and> distinct u'
      \<and> set u' = set u \<union> (set (columns df) - set (mapped_headers (columns df) (user_mapping req)))
      \<and> log_status l' =
          Some (if mapped_headers (columns df) (user_mapping req) = [] then ''partial''
                else ''accepted'')"
proof -
  from assms(3) have body: "submit_body w req d = Inr d'"
    by (auto simp: save_submit_columns_data_def split: sum.splits)
  from submit_body_merge [OF assms(1) body assms(2)] obtain n l' where
    m: "merge_log (columns df) (snd (map_keys (columns df) (user_mapping req))) n l = Inr l'"
    and f: "find_log d' (file_id req) = Some l'"
    by blast
  from merge_log_result [OF m] f show ?thesis
    by (auto simp: map_keys_eq)
qed



text \<open>
  A log whose unmatched list is \<open>NULL\<close>, as \<open>save_rejected_files\<close> writes it: every
  correction of that file raises in the branch for a file that has a log, is rolled back
  and answers HTTP 500.
\<close>

lemma merge_log_null:
  "log_unmatched_columns l = None \<Longrightarrow> \<exists>e. merge_log header nm n l = Inl e"
  by (simp add: merge_log_def Let_def)

lemma null_log_fails:
  assumes "find_log d (file_id req) = Some l" and "log_unmatched_columns l = None"
  shows "save_submit_columns_data w req d = (Inl (HTTPException 500), d)"
proof (cases "submit_body w req d")
  case (Inl e)
  then show ?thesis by (simp add: save_submit_columns_data_def)
next
  case (Inr d')
  then obtain df where df: "reload w req = Inr df"
    by (auto simp: submit_body_def split: sum.splits)
  from submit_body_merge [OF assms(1) Inr df] obtain n l' where
    "merge_log (columns df) (snd (map_keys (columns df) (user_mapping req))) n l = Inr l'"
    by blast
  with merge_log_null [OF assms(2), of "columns df"
      "snd (map_keys (columns df) (user_mapping req))" n]
  show ?thesis by simp
qed

text \<open>
  C6. A correction against a file that has a log never removes a header from the log's
  unmatched set: after the request, successful or rolled back, the file's log holds at
  least the unmatched headers it held before.
\<close>

theorem correction_keeps_prior_unmatched:
  assumes "find_log d (file_id req) = Some l"
  shows "\<exists>l'. find_log (snd (save_submit_columns_data w req d)) (file_id req) = Some l'
      \<and> unmatched_set l \<subseteq> unmatched_set l'"
proof (cases "submit_body w req d")
  case (Inl e)
  with assms show ?thesis by (simp add: save_submit_columns_data_def)
next
  case (Inr d')
  then obtain df where df: "reload w req = Inr df"
    by (auto simp: submit_body_def split: sum.splits)
  from submit_body_merge [OF assms Inr df] obtain n l' where
    m: "merge_log (columns df) (snd (map_keys (columns df) (user_mapping req))) n l = Inr l'"
    and f: "find_log d' (file_id req) = Some l'"
    by blast
  from merge_log_result [OF m] have "unmatched_set l \<subseteq> unmatched_set l'"
    by (auto simp: unmatched_set_def)
  with f Inr show ?thesis by (simp add: save_submit_columns_data_def)
qed

lemma merge_log_ok:
  "log_unmatched_columns l = Some u \<Longrightarrow> \<exists>l'. merge_log header nm n l = Inr l'"
  by (simp add: merge_log_def Let_def)

lemma submit_succeeds:
  assumes "reload w req = Inr df"
    and "corrected_records (user_mapping req) df = Inr recs"
    and "persist_rows (file_id req) (dict_values (user_mapping req)) (d, 0, []) recs = Inr st"
    and "find_log d (file_id req) = Some l"
    and "log_unmatched_columns l = Some u"
  shows "\<exists>d'. save_submit_columns_data w req d = (Inr ''success'', d')"
proof -
  obtain d1 n un where st: "st = (d1, n, un)" by (cases st)
  have "logs d1 = logs d" using persist_rows_frame [OF assms(3)] st by simp
  then have f: "find_log d1 (file_id req) = Some l"
    using assms(4) by (simp add: find_log_def)
  obtain l' where "merge_log (columns df) (snd (map_keys (columns df) (user_mapping req))) n l = Inr l'"
    using merge_log_ok [OF assms(5)] by blast
  with assms st f show ?thesis
    by (simp add: save_submit_columns_data_def submit_body_def)
qed


lemma correction_example_records:
  "corrected_records (user_mapping correction_request) correction_frame = Inr correction_records"
proof -
  have mk: "map_keys (columns correction_frame) (user_mapping correction_request) =
      ([LStr ''p_name'', LStr ''X'', LStr ''mat''],
       [(LStr ''p_name'', ''Player Name''), (LStr ''X'', ''Average''), (LStr ''mat'', ''Matches'')])"
    by code_simp
  have sel: "select_columns correction_frame [LStr ''p_name'', LStr ''X'', LStr ''mat''] =
      Inr correction_frame"
    by code_simp
  have nz: "normalize_records
      [(LStr ''p_name'', ''Player Name''), (LStr ''X'', ''Average''), (LStr ''mat'', ''Matches'')]
      correction_frame = Inr correction_records"
    by code_simp
  have ne: "user_mapping correction_request \<noteq> []"
    by (simp add: correction_request_def)
  show ?thesis
    by (simp add: corrected_records_def mk sel nz ne)
qed

lemma correction_example_succeeds:
  "\<exists>d'. save_submit_columns_data correction_world correction_request logged_db =
     (Inr ''success'', d')"
proof -
  have r: "reload correction_world correction_request = Inr correction_frame"
    by code_simp
  have "(case persist_rows (file_id correction_request)
            (dict_values (user_mapping correction_request)) (logged_db, 0, []) correction_records of
          Inl e \<Rightarrow> False | Inr st \<Rightarrow> True)"
    by code_simp
  then obtain st where p: "persist_rows (file_id correction_request)
      (dict_values (user_mapping correction_request)) (logged_db, 0, []) correction_records = Inr st"
    by (auto split: sum.splits)
  have f: "find_log logged_db (file_id correction_request) = Some prior_log"
    by code_simp
  have u: "log_unmatched_columns prior_log = Some [LStr ''X'', LStr ''Y'']"
    by (simp add: prior_log_def)
  from submit_succeeds [OF r correction_example_records p f u] show ?thesis .
qed

subsection \<open>The example correction\<close>



lemma rejected_example_log:
  "find_log rejected_db (file_id rejected_request) =
     Some \<lparr>log_file_id = 1, log_matched_columns = None, log_unmatched_columns = None,
           log_total_records = None, log_status = Some ''rejected''\<rparr>"
  by code_simp

lemma rejected_example_fails:
  "save_submit_columns_data correction_world rejected_request rejected_db =
     (Inl (HTTPException 500), rejected_db)"
  by (rule null_log_fails [OF rejected_example_log]) simp


text \<open>In that correction \<open>X\<close> is matched anew and stays unmatched in the log with
  \<open>Y\<close>.\<close>

theorem correction_keeps_prior_unmatched_witness:
  "unmatched_set prior_log = {LStr ''X'', LStr ''Y''}
   \<and> (\<exists>l'. find_log
             (snd (save_submit_columns_data correction_world correction_request logged_db))
             (file_id correction_request) = Some l'
          \<and> {LStr ''X'', LStr ''Y''} \<subseteq> unmatched_set l')"
proof -
  have f: "find_log logged_db (file_id correction_request) = Some prior_log"
    by code_simp
  have u: "unmatched_set prior_log = {LStr ''X'', LStr ''Y''}"
    by (simp add: unmatched_set_def prior_log_def)
  from correction_keeps_prior_unmatched [OF f, of correction_world] u show ?thesis
    by simp
qed

section \<open>Persisted numbers\<close>

lemma safe_int_unparseable: "unparseable_int v \<Longrightarrow> safe_int v = Inr 0"
  by (cases v) (auto simp: unparseable_int_def safe_int_def py_int_def split: option.splits)

lemma safe_float_unparseable: "unparseable_float v \<Longrightarrow> safe_float v = Inr (Exactly (Finite 0))"
  by (cases v) (auto simp: unparseable_float_def safe_float_def py_float_def)

text \<open>The separators \<open>str.strip\<close> drops are no whitespace for \<open>int\<close> and \<open>float\<close>: a
  text that begins with one is no numeral, and is stored as 0.\<close>

lemma separators_are_kept:
  "py_strip [CHR 0x1C, CHR ''5''] = ''5''
   \<and> parse_int [CHR 0x1C, CHR ''5''] = None
   \<and> \<not> is_float_literal [CHR 0x1F, CHR ''5'']
   \<and> parse_int [CHR 0xA0, CHR ''5'', CHR 0x0A] = Some 5
   \<and> safe_int (CStr [CHR 0x1C, CHR ''5'']) = Inr 0
   \<and> safe_float (CStr [CHR 0x1F, CHR ''5'']) = Inr (Exactly (Finite 0))"
  by code_simp

lemma build_rows_fields:
  assumes "build_rows fid pid mr = Inr (p, ba, bo)"
  shows "safe_int (get_or_none mr ''Matches'') = Inr (matches p)
     \<and> safe_int (get_or_none mr ''Innings'') = Inr (innings p)
     \<and> safe_int (get_or_none mr ''Total Runs'') = Inr (total_runs ba)
     \<and> safe_float (get_or_none mr ''Average'') = Inr (average ba)
     \<and> safe_int (get_or_none mr ''Centuries'') = Inr (century ba)
     \<and> safe_int (get_or_none mr ''Half Centuries'') = Inr (half_century ba)
     \<and> safe_int (get_or_none mr ''Wickets'') = Inr (wickets bo)
     \<and> safe_int (get_or_none mr ''Fifers'') = Inr (five_wickets bo)"
  using assms by (auto simp: build_rows_def split: sum.splits)

lemma persist_rows_rows:
  assumes "persist_rows fid vals (d, n, u) recs = Inr (d', n', u')"
  shows "\<exists>ps bs ws. players d' = players d @ ps \<and> battings d' = battings d @ bs
      \<and> bowlings d' = bowlings d @ ws
      \<and> length ps = length recs \<and> length bs = length recs \<and> length ws = length recs
      \<and> n' = n + length recs
      \<and> (\<forall>i < length recs. \<exists>pid.
            build_rows fid pid (mapped_row_of vals (recs ! i)) = Inr (ps ! i, bs ! i, ws ! i))"
  using assms
proof (induction recs arbitrary: d n u)
  case Nil
  then show ?case by simp
next
  case (Cons row recs)
  from Cons.prems obtain p ba bo where
    b: "build_rows fid (Suc (player_seq d)) (mapped_row_of vals row) = Inr (p, ba, bo)"
    by (auto simp: Let_def split: sum.splits)
  let ?d1 = "d\<lparr>players := players d @ [p], battings := battings d @ [ba],
                bowlings := bowlings d @ [bo], player_seq := Suc (player_seq d)\<rparr>"
  from Cons.prems b obtain u1 where
    r: "persist_rows fid vals (?d1, Suc n, u1) recs = Inr (d', n', u')"
    by (auto simp: Let_def)
  from Cons.IH [OF r] obtain ps bs ws where
    ih: "players d' = players ?d1 @ ps" "battings d' = battings ?d1 @ bs"
      "bowlings d' = bowlings ?d1 @ ws"
      "length ps = length recs" "length bs = length recs" "length ws = length recs"
      "n' = Suc n + length recs"
      "\<forall>i < length recs. \<exists>pid.
            build_rows fid pid (mapped_row_of vals (recs ! i)) = Inr (ps ! i, bs ! i, ws ! i)"
    by blast
  have "\<forall>i < length (row # recs). \<exists>pid.
      build_rows fid pid (mapped_row_of vals ((row # recs) ! i)) =
        Inr ((p # ps) ! i, (ba # bs) ! i, (bo # ws) ! i)"
  proof (intro allI impI)
    fix i assume "i < length (row # recs)"
    then show "\<exists>pid. build_rows fid pid (mapped_row_of vals ((row # recs) ! i)) =
        Inr ((p # ps) ! i, (ba # bs) ! i, (bo # ws) ! i)"
      using b ih(8) by (cases i) auto
  qed
  with ih show ?case
    by (intro exI [of _ "p # ps"] exI [of _ "ba # bs"] exI [of _ "bo # ws"]) simp
qed

lemma foldl_dict_set_map:
  "foldl (\<lambda>mr k. dict_set mr k (g k)) d0 ks =
     foldl (\<lambda>d (k, v). dict_set d k v) d0 (map (\<lambda>k. (k, g k)) ks)"
  by (induction ks arbitrary: d0) simp_all

lemma map_of_key_image:
  "map_of (map (\<lambda>k. (k, g k)) ks) k = (if k \<in> set ks then Some (g k) else None)"
  by (induction ks) auto

lemma get_or_none_mapped_row:
  "get_or_none (mapped_row_of vals row) c =
     (if c \<in> set vals then get_or_none row (LStr c) else CNone)"
proof -
  have "map_of (mapped_row_of vals row) c =
      map_of (map (\<lambda>k. (k, get_or_none row (LStr k))) (rev vals)) c"
    unfolding mapped_row_of_def foldl_dict_set_map map_of_foldl_set by (simp add: rev_map)
  then show ?thesis
    by (simp add: get_or_none_def dict_get_def map_of_key_image)
qed

lemma safe_int_row:
  "unparseable_int (get_or_none row (LStr c)) \<Longrightarrow>
     safe_int (get_or_none (mapped_row_of vals row) c) = Inr 0"
  by (simp add: get_or_none_mapped_row safe_int_unparseable)
    (simp add: safe_int_def py_int_def)

lemma safe_float_row:
  "unparseable_float (get_or_none row (LStr c)) \<Longrightarrow>
     safe_float (get_or_none (mapped_row_of vals row) c) = Inr (Exactly (Finite 0))"
  by (simp add: get_or_none_mapped_row safe_float_unparseable)
    (simp add: safe_float_def py_float_def)

lemma build_rows_zero:
  assumes "build_rows fid pid (mapped_row_of vals row) = Inr (p, ba, bo)"
  shows "zero_for_unparseable row p ba bo"
  using build_rows_fields [OF assms]
  unfolding zero_for_unparseable_def
  by (auto dest: safe_int_row [of row _ vals] safe_float_row [of row _ vals])

text \<open>
  In a correction that reaches its commit, one player row, one batting row and one bowling
  row are written for every canonical record, and each of Matches, Innings, Total Runs,
  Centuries, Half Centuries, Wickets and Fifers is stored as the integer 0, and Average
  as 0.0, when the record's cell does not read as a number: \<open>None\<close>, the placeholder
  \<open>"-"\<close>, the empty string or any other text that is no numeral.
\<close>

lemma committed_rows_hold_zero:
  assumes "save_submit_columns_data w req d = (Inr ok, d')"
    and "reload w req = Inr df"
    and "corrected_records (user_mapping req) df = Inr recs"
  shows "\<exists>ps bs ws. players d' = players d @ ps \<and> battings d' = battings d @ bs
      \<and> bowlings d' = bowlings d @ ws
      \<and> length ps = length recs \<and> length bs = length recs \<and> length ws = length recs
      \<and> (\<forall>i < length recs. zero_for_unparseable (recs ! i) (ps ! i) (bs ! i) (ws ! i))"
proof -
  from assms(1) have body: "submit_body w req d = Inr d'"
    by (auto simp: save_submit_columns_data_def split: sum.splits)
  from body assms(2,3) obtain d1 n u where
    pr: "persist_rows (file_id req) (dict_values (user_mapping req)) (d, 0, []) recs =
          Inr (d1, n, u)"
    and d': "players d' = players d1 \<and> battings d' = battings d1 \<and> bowlings d' = bowlings d1"
    by (auto simp: submit_body_def split: sum.splits option.splits)
  from persist_rows_rows [OF pr] obtain ps bs ws where
    r: "players d1 = players d @ ps" "battings d1 = battings d @ bs"
      "bowlings d1 = bowlings d @ ws"
      "length ps = length recs" "length bs = length recs" "length ws = length recs"
    and each: "\<forall>i < length recs. \<exists>pid.
        build_rows (file_id req) pid
          (mapped_row_of (dict_values (user_mapping req)) (recs ! i)) =
        Inr (ps ! i, bs ! i, ws ! i)"
    by blast
  from each have "\<forall>i < length recs. zero_for_unparseable (recs ! i) (ps ! i) (bs ! i) (ws ! i)"
    using build_rows_zero by blast
  with r d' show ?thesis by auto
qed

text \<open>A conversion ends a request only by overflow: an infinite float as an integer, or
  an integer beyond the floats as a float.\<close>

lemma safe_int_raises: "safe_int v = Inl e \<Longrightarrow> e = OverflowError"
  by (cases v) (auto simp: safe_int_def py_int_def split: option.splits pyfloat.splits if_splits)

lemma safe_float_raises: "safe_float v = Inl e \<Longrightarrow> e = OverflowError"
  by (cases v) (auto simp: safe_float_def py_float_def split: if_splits)

lemma build_rows_raises: "build_rows fid pid mr = Inl e \<Longrightarrow> e = OverflowError"
  by (auto simp: build_rows_def split: sum.splits dest: safe_int_raises safe_float_raises)

lemma persist_rows_raises: "persist_rows fid vals st recs = Inl e \<Longrightarrow> e = OverflowError"
proof (induction recs arbitrary: st)
  case Nil
  then show ?case by simp
next
  case (Cons row recs)
  obtain d n u where st: "st = (d, n, u)" by (cases st)
  from Cons.prems show ?case
    by (auto simp: st Let_def split: sum.splits dest: build_rows_raises Cons.IH)
qed

text \<open>In the example correction the second record has an empty Matches cell, the
  placeholder under Total Runs and an empty Average, and the first the text \<open>q\<close> as
  its Average.\<close>

lemma committed_rows_hold_zero_example:
  "map (\<lambda>c. get_or_none (correction_records ! 1) (LStr c)) [''Matches'', ''Total Runs'', ''Average''] =
     [CStr [], CStr ''-'', CStr []]
   \<and> get_or_none (correction_records ! 0) (LStr ''Average'') = CStr ''q''
   \<and> matches (players
        (snd (save_submit_columns_data correction_world correction_request logged_db)) ! 1) = 0
   \<and> total_runs (battings
        (snd (save_submit_columns_data correction_world correction_request logged_db)) ! 1) = 0
   \<and> average (battings
        (snd (save_submit_columns_data correction_world correction_request logged_db)) ! 1) =
       Exactly (Finite 0)
   \<and> average (battings
        (snd (save_submit_columns_data correction_world correction_request logged_db)) ! 0) =
       Exactly (Finite 0)"
proof -
  obtain d' where s: "save_submit_columns_data correction_world correction_request logged_db =
      (Inr ''success'', d')"
    using correction_example_succeeds by blast
  have r: "reload correction_world correction_request = Inr correction_frame"
    by code_simp
  have cells: "map (\<lambda>c. get_or_none (correction_records ! 1) (LStr c))
        [''Matches'', ''Total Runs'', ''Average''] = [CStr [], CStr ''-'', CStr []]
      \<and> get_or_none (correction_records ! 0) (LStr ''Average'') = CStr ''q''"
    by code_simp
  have un: "unparseable_int (CStr []) \<and> unparseable_int (CStr ''-'')
      \<and> unparseable_float (CStr []) \<and> unparseable_float (CStr ''q'')"
    by code_simp
  have len: "length correction_records = 2" "players logged_db = []" "battings logged_db = []"
    by (simp_all add: correction_records_def logged_db_def empty_db_def)
  from committed_rows_hold_zero [OF s r correction_example_records]
  obtain ps bs ws where
    p: "players d' = players logged_db @ ps" "battings d' = battings logged_db @ bs"
    and z: "\<forall>i < length correction_records.
        zero_for_unparseable (correction_records ! i) (ps ! i) (bs ! i) (ws ! i)"
    by blast
  from z len have z0: "zero_for_unparseable (correction_records ! 0) (ps ! 0) (bs ! 0) (ws ! 0)"
    and z1: "zero_for_unparseable (correction_records ! 1) (ps ! 1) (bs ! 1) (ws ! 1)"
    by simp_all
  from cells un z0 have a0: "average (bs ! 0) = Exactly (Finite 0)"
    by (simp add: zero_for_unparseable_def)
  from cells un z1 have a1: "matches (ps ! 1) = 0 \<and> total_runs (bs ! 1) = 0
      \<and> average (bs ! 1) = Exactly (Finite 0)"
    by (simp add: zero_for_unparseable_def)
  from cells a0 a1 p len show ?thesis
    by (simp add: s)
qed

text \<open>A request that does not reach its commit writes nothing.\<close>

lemma overflow_example_records:
  "corrected_records (user_mapping overflow_request) overflow_frame = Inr overflow_records"
proof -
  have mk: "map_keys (columns overflow_frame) (user_mapping overflow_request) =
      ([LStr ''p_name'', LStr ''mat''],
       [(LStr ''p_name'', ''Player Name''), (LStr ''mat'', ''Matches'')])"
    by code_simp
  have sel: "select_columns overflow_frame [LStr ''p_name'', LStr ''mat''] = Inr overflow_frame"
    by code_simp
  have nz: "normalize_records [(LStr ''p_name'', ''Player Name''), (LStr ''mat'', ''Matches'')]
      overflow_frame = Inr overflow_records"
    by code_simp
  have ne: "user_mapping overflow_request \<noteq> []"
    by (simp add: overflow_request_def)
  show ?thesis
    by (simp add: corrected_records_def mk sel nz ne)
qed

lemma overflow_example_fails:
  "save_submit_columns_data overflow_world overflow_request logged_db =
     (Inl (HTTPException 500), logged_db)"
proof -
  have r: "reload overflow_world overflow_request = Inr overflow_frame"
    by code_simp
  have "(case persist_rows (file_id overflow_request)
            (dict_values (user_mapping overflow_request)) (logged_db, 0, []) overflow_records of
          Inl e \<Rightarrow> True | Inr st \<Rightarrow> False)"
    by code_simp
  then obtain e where p: "persist_rows (file_id overflow_request)
      (dict_values (user_mapping overflow_request)) (logged_db, 0, []) overflow_records = Inl e"
    by (auto split: sum.splits)
  show ?thesis
    by (simp add: save_submit_columns_data_def submit_body_def r overflow_example_records p)
qed

text \<open>
  C10. The claim: in the correction path every canonical record is persisted, with 0 (0.0
  for Average) in each numeric field whose cell does not read as a number, the
  placeholder \<open>"-"\<close> and the empty string among them, and the row is not rejected.
  \<open>safe_int\<close> is documented to return the integer when the conversion succeeds and
  0 otherwise; of an infinite float the conversion raises \<open>OverflowError\<close>, which it
  does not catch. A file whose column \<open>mat\<close>, mapped to Matches, holds such a float in
  its first row gives two records that hold the placeholder in nine fields each; the
  request is rolled back and answers HTTP 500, and no row of either record is written.
  The correction of a file recorded as rejected, whose records hold the placeholder and
  the empty string, is rolled back as well.
\<close>

theorem unparseable_numbers_are_not_stored:
  "safe_int (CFloat PosInf) = Inl OverflowError
   \<and> corrected_records (user_mapping overflow_request) overflow_frame = Inr overflow_records
   \<and> save_submit_columns_data overflow_world overflow_request logged_db =
       (Inl (HTTPException 500), logged_db)
   \<and> players logged_db = [] \<and> battings logged_db = [] \<and> bowlings logged_db = []
   \<and> corrected_records (user_mapping rejected_request) correction_frame =
       Inr correction_records
   \<and> save_submit_columns_data correction_world rejected_request rejected_db =
       (Inl (HTTPException 500), rejected_db)
   \<and> players rejected_db = [] \<and> battings rejected_db = [] \<and> bowlings rejected_db = []"
proof -
  have i: "safe_int (CFloat PosInf) = Inl OverflowError"
    by code_simp
  have l: "players logged_db = [] \<and> battings logged_db = [] \<and> bowlings logged_db = []"
    by code_simp
  have j: "players rejected_db = [] \<and> battings rejected_db = [] \<and> bowlings rejected_db = []"
    by code_simp
  have m: "user_mapping rejected_request = user_mapping correction_request"
    by (simp add: rejected_request_def)
  from i l j overflow_example_records overflow_example_fails rejected_example_fails
    correction_example_records
  show ?thesis
    unfolding m by (intro conjI) simp_all
qed
section \<open>Normalization\<close>

lemma positions_iff: "i \<in> set (positions cs l) \<longleftrightarrow> i < length cs \<and> cs ! i = l"
  by (auto simp: positions_def)

lemma positions_empty_iff: "positions cs l = [] \<longleftrightarrow> l \<notin> set cs"
  by (auto simp: positions_def filter_empty_conv in_set_conv_nth)

lemma positions_append:
  "positions (xs @ ys) l = positions xs l @ map (\<lambda>i. i + length xs) (positions ys l)"
proof -
  have split: "[0 ..< length xs + length ys] =
      [0 ..< length xs] @ map (\<lambda>i. i + length xs) [0 ..< length ys]"
    by (metis add.commute add_0 map_add_upt upt_add_eq_append zero_le)
  have left: "filter (\<lambda>i. (xs @ ys) ! i = l) [0 ..< length xs] =
      filter (\<lambda>i. xs ! i = l) [0 ..< length xs]"
    by (rule filter_cong) (auto simp: nth_append)
  have right: "filter (\<lambda>i. (xs @ ys) ! i = l) (map (\<lambda>i. i + length xs) [0 ..< length ys]) =
      map (\<lambda>i. i + length xs) (filter (\<lambda>i. ys ! i = l) [0 ..< length ys])"
    by (simp add: filter_map comp_def nth_append)
  show ?thesis
    by (simp add: positions_def split left right)
qed

lemma map_nth_positions:
  "map ((!) cs) (positions cs l) = replicate (length (positions cs l)) l"
proof -
  have "map ((!) cs) (positions cs l) = replicate (length (map ((!) cs) (positions cs l))) l"
    by (rule replicate_eqI) (auto simp: positions_iff)
  then show ?thesis by simp
qed

lemma unique_in_order_replicate:
  "x \<notin> set xs \<Longrightarrow> unique_in_order (xs @ replicate (Suc n) x) = unique_in_order xs @ [x]"
proof (induction n)
  case 0
  then show ?case by (simp add: unique_in_order_snoc)
next
  case (Suc n)
  have e: "xs @ replicate (Suc (Suc n)) x = (xs @ replicate (Suc n) x) @ [x]"
    by (simp add: replicate_append_same)
  have m: "x \<in> set (xs @ replicate (Suc n) x)"
    by simp
  show ?case
    unfolding e unique_in_order_snoc by (simp only: m if_True Suc.IH [OF Suc.prems])
qed

lemma unique_in_order_groups:
  assumes "distinct ls" and "\<forall>l \<in> set ls. 0 < n l"
  shows "unique_in_order (concat (map (\<lambda>l. replicate (n l) l) ls)) = ls"
  using assms
proof (induction ls rule: rev_induct)
  case Nil
  then show ?case by (simp add: unique_in_order_def)
next
  case (snoc l ls)
  then obtain k where k: "n l = Suc k" by (cases "n l") auto
  have "l \<notin> set (concat (map (\<lambda>l. replicate (n l) l) ls))"
    using snoc.prems by auto
  then show ?case
    using snoc by (simp add: k unique_in_order_replicate del: replicate_Suc)
qed

lemma filter_concat_positions:
  assumes "distinct ls" and "l \<in> set ls"
  shows "filter (\<lambda>j. cs ! j = l) (concat (map (positions cs) ls)) = positions cs l"
  using assms
proof (induction ls)
  case Nil
  then show ?case by simp
next
  case (Cons a ls)
  have same: "filter (\<lambda>j. cs ! j = l) (positions cs l) = positions cs l"
    by (simp add: positions_def)
  have other: "a \<noteq> l \<Longrightarrow> filter (\<lambda>j. cs ! j = l) (positions cs a) = []" for a
    by (auto simp: positions_def filter_empty_conv)
  have none: "l \<notin> set ls \<Longrightarrow> filter (\<lambda>j. cs ! j = l) (concat (map (positions cs) ls)) = []"
    by (auto simp: filter_empty_conv positions_iff)
  show ?case
  proof (cases "a = l")
    case True
    with Cons.prems none same show ?thesis by simp
  next
    case False
    with Cons other [OF False] show ?thesis by simp
  qed
qed

lemma find_rev:
  "find P (rev xs) = (case filter P xs of [] \<Rightarrow> None | y # ys \<Rightarrow> Some (last (y # ys)))"
proof (induction xs rule: rev_induct)
  case Nil
  then show ?case by simp
next
  case (snoc x xs)
  then show ?case by (auto split: list.splits)
qed

lemma map_of_graph:
  "map_of (map (\<lambda>j. (f j, g j)) js) k = map_option g (find (\<lambda>j. f j = k) js)"
  by (induction js) auto

lemma placeholders_fold:
  assumes "distinct ks"
  shows "foldl (\<lambda>d col. if LStr col \<in> set (columns d) then d
                         else add_column (LStr col) (CStr ''-'') d) df ks =
     \<lparr>columns = columns df @ map LStr (filter (\<lambda>c. LStr c \<notin> set (columns df)) ks),
      rows = map (\<lambda>r. r @ replicate (length (filter (\<lambda>c. LStr c \<notin> set (columns df)) ks))
                              (CStr ''-'')) (rows df)\<rparr>"
  using assms
proof (induction ks arbitrary: df)
  case Nil
  then show ?case by simp
next
  case (Cons k ks)
  show ?case
  proof (cases "LStr k \<in> set (columns df)")
    case True
    with Cons show ?thesis by simp
  next
    case False
    have f: "filter (\<lambda>c. LStr c \<notin> set (columns (add_column (LStr k) (CStr ''-'') df))) ks =
        filter (\<lambda>c. LStr c \<notin> set (columns df)) ks"
      using Cons.prems by (intro filter_cong) (auto simp: add_column_def)
    have "distinct ks" using Cons.prems by simp
    from Cons.IH [OF this, of "add_column (LStr k) (CStr ''-'') df"] False show ?thesis
      unfolding f by (simp add: add_column_def comp_def replicate_append_same)
  qed
qed

lemma schema_keys:
  "dict_keys schema_mapping =
     [''Player Name'', ''Matches'', ''Innings'', ''Total Runs'', ''Highest Score'', ''Average'',
      ''Wickets'', ''Centuries'', ''Half Centuries'', ''Fifers'', ''Best Bowling Figures'']"
  by code_simp

lemma distinct_schema_keys: "distinct (dict_keys schema_mapping)"
  unfolding schema_keys by simp

text \<open>The frame after the placeholders: the extra columns are the schema's fields that no
  column carries.\<close>

lemma add_placeholders_eq:
  "add_placeholders df =
     \<lparr>columns = columns df @
        map LStr (filter (\<lambda>c. LStr c \<notin> set (columns df)) (dict_keys schema_mapping)),
      rows = map (\<lambda>r. r @ replicate
          (length (filter (\<lambda>c. LStr c \<notin> set (columns df)) (dict_keys schema_mapping)))
          (CStr ''-'')) (rows df)\<rparr>"
  unfolding add_placeholders_def by (rule placeholders_fold [OF distinct_schema_keys])

lemma schema_in_placeholders:
  "c \<in> set (dict_keys schema_mapping) \<Longrightarrow> LStr c \<in> set (columns (add_placeholders df))"
  by (auto simp: add_placeholders_eq)

lemma zip_map_same: "zip (map f js) (map g js) = map (\<lambda>j. (f j, g j)) js"
  by (induction js) simp_all

text \<open>The record of one row of the ordered frame: its keys, and its value under a field.\<close>

lemma record_keys:
  assumes "\<forall>c \<in> set (dict_keys schema_mapping). LStr c \<in> set cs"
  shows "dict_keys (dict_of (zip
           (map ((!) cs) (concat (map (positions cs) (map LStr (dict_keys schema_mapping)))))
           (map g (concat (map (positions cs) (map LStr (dict_keys schema_mapping))))))) =
         map LStr (dict_keys schema_mapping)"
proof -
  let ?ls = "map LStr (dict_keys schema_mapping)"
  have d: "distinct ?ls"
    using distinct_schema_keys by (simp add: distinct_map inj_on_def)
  have pos: "\<forall>l \<in> set ?ls. 0 < length (positions cs l)"
    using assms by (auto simp: positions_empty_iff)
  have "map ((!) cs) (concat (map (positions cs) ?ls)) =
      concat (map (\<lambda>l. replicate (length (positions cs l)) l) ?ls)"
    by (simp add: map_concat comp_def map_nth_positions)
  then have "unique_in_order (map ((!) cs) (concat (map (positions cs) ?ls))) = ?ls"
    using unique_in_order_groups [OF d pos] by simp
  then show ?thesis
    by (simp add: dict_keys_dict_of)
qed

lemma record_value:
  assumes "c \<in> set (dict_keys schema_mapping)"
  shows "dict_get (dict_of (zip
           (map ((!) cs) (concat (map (positions cs) (map LStr (dict_keys schema_mapping)))))
           (map g (concat (map (positions cs) (map LStr (dict_keys schema_mapping))))))) (LStr c) =
         (case positions cs (LStr c) of [] \<Rightarrow> None | j # js \<Rightarrow> Some (g (last (j # js))))"
proof -
  let ?ls = "map LStr (dict_keys schema_mapping)"
  have d: "distinct ?ls"
    using distinct_schema_keys by (simp add: distinct_map inj_on_def)
  have m: "LStr c \<in> set ?ls"
    using assms by simp
  let ?idx = "concat (map (positions cs) ?ls)"
  have f: "filter (\<lambda>j. cs ! j = LStr c) ?idx = positions cs (LStr c)"
    by (rule filter_concat_positions [OF d m])
  have "dict_get (dict_of (zip (map ((!) cs) ?idx) (map g ?idx))) (LStr c) =
      map_of (map (\<lambda>j. (cs ! j, g j)) (rev ?idx)) (LStr c)"
    by (simp only: dict_get_dict_of zip_map_same rev_map)
  also have "\<dots> = map_option g (find (\<lambda>j. cs ! j = LStr c) (rev ?idx))"
    by (rule map_of_graph)
  also have "\<dots> = map_option g
      (case positions cs (LStr c) of [] \<Rightarrow> None | j # js \<Rightarrow> Some (last (j # js)))"
    by (simp only: find_rev f)
  also have "\<dots> =
      (case positions cs (LStr c) of [] \<Rightarrow> None | j # js \<Rightarrow> Some (g (last (j # js))))"
    by (simp split: list.splits)
  finally show ?thesis .
qed

lemma normalize_records_eq:
  "normalize_records m df =
     Inr (map (\<lambda>r. dict_of (zip
            (map ((!) (columns (add_placeholders (rename_columns m df))))
               (concat (map (positions (columns (add_placeholders (rename_columns m df))))
                  (map LStr (dict_keys schema_mapping)))))
            (map (\<lambda>j. filled (r ! j))
               (concat (map (positions (columns (add_placeholders (rename_columns m df))))
                  (map LStr (dict_keys schema_mapping)))))))
          (rows (add_placeholders (rename_columns m df))))"
proof -
  have "list_all (\<lambda>l. l \<in> set (columns (add_placeholders (rename_columns m df))))
      (map LStr (dict_keys schema_mapping))"
    by (simp add: list_all_iff schema_in_placeholders)
  then show ?thesis
    by (simp add: normalize_records_def select_columns_def Let_def to_dict_records_def fillna_def
        comp_def)
qed

text \<open>The value of a field in the record of a row \<open>r\<close> that has a cell for each column.\<close>

lemma field_value:
  assumes c: "c \<in> set (dict_keys schema_mapping)" and len: "length r = length cols"
    and n: "n = length (filter (\<lambda>c. LStr c \<notin> set (map (rename_label m) cols))
                        (dict_keys schema_mapping))"
  shows "(case positions
            (map (rename_label m) cols @
             map LStr (filter (\<lambda>c. LStr c \<notin> set (map (rename_label m) cols))
                        (dict_keys schema_mapping))) (LStr c) of
          [] \<Rightarrow> None
        | j # js \<Rightarrow> Some (filled ((r @ replicate n (CStr ''-'')) ! last (j # js)))) =
         Some (case source_column m cols c of
                 None \<Rightarrow> CStr ''-''
               | Some j \<Rightarrow> filled (r ! j))"
proof -
  let ?cols1 = "map (rename_label m) cols"
  let ?extra = "filter (\<lambda>c. LStr c \<notin> set ?cols1) (dict_keys schema_mapping)"
  have app: "positions (?cols1 @ map LStr ?extra) (LStr c) =
      positions ?cols1 (LStr c) @
      map (\<lambda>i. i + length ?cols1) (positions (map LStr ?extra) (LStr c))"
    by (rule positions_append)
  show ?thesis
  proof (cases "LStr c \<in> set ?cols1")
    case True
    then have "LStr c \<notin> set (map LStr ?extra)" by auto
    then have e: "positions (map LStr ?extra) (LStr c) = []"
      by (simp add: positions_empty_iff)
    from True obtain j js where p: "positions ?cols1 (LStr c) = j # js"
      by (cases "positions ?cols1 (LStr c)") (auto simp: positions_empty_iff)
    have "last (j # js) \<in> set (positions ?cols1 (LStr c))"
      unfolding p by (rule last_in_set) simp
    then have "last (j # js) < length r"
      using len by (simp add: positions_iff)
    then have "(r @ replicate n (CStr ''-'')) ! last (j # js) = r ! last (j # js)"
      by (simp add: nth_append)
    then show ?thesis
      unfolding app e by (simp add: p source_column_def)
  next
    case False
    then have p: "positions ?cols1 (LStr c) = []"
      by (simp add: positions_empty_iff)
    from False c have "LStr c \<in> set (map LStr ?extra)" by auto
    then obtain j js where q: "positions (map LStr ?extra) (LStr c) = j # js"
      by (cases "positions (map LStr ?extra) (LStr c)") (auto simp: positions_empty_iff)
    have "last (j # js) \<in> set (positions (map LStr ?extra) (LStr c))"
      unfolding q by (rule last_in_set) simp
    then have k: "last (j # js) < n"
      using n by (simp add: positions_iff)
    have "last (map (\<lambda>i. i + length ?cols1) (j # js)) = last (j # js) + length r"
      using len by (simp add: last_map)
    then have "(r @ replicate n (CStr ''-'')) ! last (map (\<lambda>i. i + length ?cols1) (j # js)) =
        CStr ''-''"
      using k by (simp add: nth_append)
    then show ?thesis
      unfolding app p q by (simp add: source_column_def p filled_def isna_def)
  qed
qed

lemma absent_field_has_no_source:
  assumes "set cols \<subseteq> set (dict_keys m)" and "c \<notin> set (dict_values m)"
  shows "source_column m cols c = None"
proof -
  have "rename_label m l \<noteq> LStr c" if "l \<in> set cols" for l
  proof -
    from that assms(1) have "l \<in> fst ` set m" by (auto simp: dict_keys_def)
    then obtain v where v: "map_of m l = Some v"
      by (metis domD dom_map_of_conv_image_fst)
    then have "v \<in> set (dict_values m)"
      by (auto simp: dict_values_def dest: map_of_SomeD intro: rev_image_eqI)
    with assms(2) v show ?thesis
      by (auto simp: rename_label_def dict_get_def)
  qed
  then have "LStr c \<notin> set (map (rename_label m) cols)"
    by (auto simp: image_iff) metis
  then have "positions (map (rename_label m) cols) (LStr c) = []"
    by (simp only: positions_empty_iff not_False_eq_True)
  then show ?thesis
    by (simp add: source_column_def)
qed

lemma normalized_records_char:
  assumes "wellformed df"
  shows "\<exists>recs. normalize_records m df = Inr recs \<and> length recs = length (rows df)
     \<and> (\<forall>i < length (rows df).
           dict_keys (recs ! i) = map LStr (dict_keys schema_mapping)
         \<and> (\<forall>c \<in> set (dict_keys schema_mapping).
               dict_get (recs ! i) (LStr c) =
                 Some (case source_column m (columns df) c of
                         None \<Rightarrow> CStr ''-''
                       | Some j \<Rightarrow> filled (rows df ! i ! j))
             \<and> (set (columns df) \<subseteq> set (dict_keys m) \<and> c \<notin> set (dict_values m) \<longrightarrow>
                  dict_get (recs ! i) (LStr c) = Some (CStr ''-''))
             \<and> (\<forall>j. source_column m (columns df) c = Some j \<and> isna (rows df ! i ! j) \<longrightarrow>
                  dict_get (recs ! i) (LStr c) = Some (CStr []))))"
proof -
  let ?cols1 = "map (rename_label m) (columns df)"
  let ?extra = "filter (\<lambda>c. LStr c \<notin> set ?cols1) (dict_keys schema_mapping)"
  let ?cols2 = "?cols1 @ map LStr ?extra"
  let ?idx = "concat (map (positions ?cols2) (map LStr (dict_keys schema_mapping)))"
  let ?rec = "\<lambda>r. dict_of (zip (map ((!) ?cols2) ?idx)
      (map (\<lambda>j. filled ((r @ replicate (length ?extra) (CStr ''-'')) ! j)) ?idx))"
  have cols2: "columns (add_placeholders (rename_columns m df)) = ?cols2"
    and rows2: "rows (add_placeholders (rename_columns m df)) =
        map (\<lambda>r. r @ replicate (length ?extra) (CStr ''-'')) (rows df)"
    by (simp_all add: add_placeholders_eq rename_columns_def)
  have n: "normalize_records m df = Inr (map ?rec (rows df))"
    unfolding normalize_records_eq cols2 rows2 by (simp add: comp_def)
  have present: "\<forall>c \<in> set (dict_keys schema_mapping). LStr c \<in> set ?cols2"
    by auto
  have each: "dict_keys (?rec (rows df ! i)) = map LStr (dict_keys schema_mapping)
      \<and> (\<forall>c \<in> set (dict_keys schema_mapping).
            dict_get (?rec (rows df ! i)) (LStr c) =
              Some (case source_column m (columns df) c of
                      None \<Rightarrow> CStr ''-''
                    | Some j \<Rightarrow> filled (rows df ! i ! j)))"
    if i: "i < length (rows df)" for i
  proof -
    from i assms have len: "length (rows df ! i) = length (columns df)"
      by (simp add: wellformed_def list_all_length)
    have keys: "dict_keys (?rec (rows df ! i)) = map LStr (dict_keys schema_mapping)"
      by (rule record_keys [OF present])
    have "dict_get (?rec (rows df ! i)) (LStr c) =
        Some (case source_column m (columns df) c of
                None \<Rightarrow> CStr ''-''
              | Some j \<Rightarrow> filled (rows df ! i ! j))"
      if c: "c \<in> set (dict_keys schema_mapping)" for c
      unfolding record_value [OF c] by (rule field_value [OF c len refl])
    with keys show ?thesis by blast
  qed
  have all: "\<forall>i < length (rows df).
      dict_keys (map ?rec (rows df) ! i) = map LStr (dict_keys schema_mapping)
      \<and> (\<forall>c \<in> set (dict_keys schema_mapping).
            dict_get (map ?rec (rows df) ! i) (LStr c) =
              Some (case source_column m (columns df) c of
                      None \<Rightarrow> CStr ''-''
                    | Some j \<Rightarrow> filled (rows df ! i ! j))
          \<and> (set (columns df) \<subseteq> set (dict_keys m) \<and> c \<notin> set (dict_values m) \<longrightarrow>
               dict_get (map ?rec (rows df) ! i) (LStr c) = Some (CStr ''-''))
          \<and> (\<forall>j. source_column m (columns df) c = Some j \<and> isna (rows df ! i ! j) \<longrightarrow>
               dict_get (map ?rec (rows df) ! i) (LStr c) = Some (CStr [])))"
    using each by (auto simp: absent_field_has_no_source filled_def)
  show ?thesis
  proof (intro exI conjI)
    show "normalize_records m df = Inr (map ?rec (rows df))" by (rule n)
    show "length (map ?rec (rows df)) = length (rows df)" by simp
    show "\<forall>i < length (rows df).
      dict_keys (map ?rec (rows df) ! i) = map LStr (dict_keys schema_mapping)
      \<and> (\<forall>c \<in> set (dict_keys schema_mapping).
            dict_get (map ?rec (rows df) ! i) (LStr c) =
              Some (case source_column m (columns df) c of
                      None \<Rightarrow> CStr ''-''
                    | Some j \<Rightarrow> filled (rows df ! i ! j))
          \<and> (set (columns df) \<subseteq> set (dict_keys m) \<and> c \<notin> set (dict_values m) \<longrightarrow>
               dict_get (map ?rec (rows df) ! i) (LStr c) = Some (CStr ''-''))
          \<and> (\<forall>j. source_column m (columns df) c = Some j \<and> isna (rows df ! i ! j) \<longrightarrow>
               dict_get (map ?rec (rows df) ! i) (LStr c) = Some (CStr [])))"
      by (rule all)
  qed
qed

lemma header_for_in_header: "header_for header key = Some h \<Longrightarrow> h \<in> set header"
  by (auto simp: header_for_def split: option.splits if_splits)

lemma select_columns_frame:
  assumes "select_columns df ls = Inr md"
  shows "wellformed md \<and> set (columns md) \<subseteq> set ls \<and> length (rows md) = length (rows df)"
proof -
  from assms have md: "md = \<lparr>columns = map ((!) (columns df)) (concat (map (positions (columns df)) ls)),
      rows = map (\<lambda>r. map ((!) r) (concat (map (positions (columns df)) ls))) (rows df)\<rparr>"
    by (auto simp: select_columns_def Let_def split: if_splits)
  show ?thesis
    unfolding md by (auto simp: wellformed_def list_all_iff positions_iff)
qed

text \<open>The correction service normalizes the projection of the file by the mapped headers,
  under the mapping restricted to them.\<close>

lemma corrected_records_projection:
  "\<exists>md. corrected_records mapped df =
          normalize_records (snd (map_keys (columns df) mapped)) md
      \<and> wellformed md
      \<and> set (columns md) \<subseteq> set (dict_keys (snd (map_keys (columns df) mapped)))
      \<and> length (rows md) = (if mapped = [] then 0 else length (rows df))"
proof (cases "mapped = []")
  case True
  then show ?thesis
    by (intro exI [of _ empty_frame])
      (simp add: corrected_records_def map_keys_def empty_frame_def wellformed_def
        split: prod.splits)
next
  case False
  let ?cols = "fst (map_keys (columns df) mapped)"
  have "list_all (\<lambda>l. l \<in> set (columns df)) ?cols"
    by (auto simp: map_keys_eq list_all_iff List.map_filter_def dest: header_for_in_header)
  then obtain md where sel: "select_columns df ?cols = Inr md"
    by (simp add: select_columns_def Let_def)
  have keys: "set ?cols = set (dict_keys (snd (map_keys (columns df) mapped)))"
    by (simp add: map_keys_eq mapped_headers_def)
  obtain cols nm where mk: "map_keys (columns df) mapped = (cols, nm)"
    by (cases "map_keys (columns df) mapped")
  from False sel mk have "corrected_records mapped df =
      normalize_records (snd (map_keys (columns df) mapped)) md"
    by (simp add: corrected_records_def)
  with select_columns_frame [OF sel] keys False show ?thesis by auto
qed

text \<open>The upload endpoint normalizes the frame \<open>process_tabular\<close> and \<open>process_document\<close>
  return, under the resolved mapping: the projection of the file by the mapped headers.\<close>

lemma summarize_projection:
  assumes "summarize p df m u = Inr (s, md, m')"
  shows "m' = m \<and> wellformed md \<and> set (columns md) \<subseteq> set (dict_keys m)"
proof (cases "m = []")
  case True
  with assms show ?thesis
    by (auto simp: summarize_def Let_def empty_frame_def wellformed_def)
next
  case False
  with assms have sel: "select_columns df
      (filter (\<lambda>key. key \<in> set (columns df)) (dict_keys m)) = Inr md" and m: "m' = m"
    by (auto simp: summarize_def Let_def split: sum.splits)
  from select_columns_frame [OF sel] m show ?thesis by auto
qed

text \<open>
  C7. The normalization block, run on a frame with one cell per column in every row,
  always returns one record per row. Every record has exactly the registry's canonical
  fields as keys, in the registry's order. A field holds the cell of the column renamed to
  it (the last such column when several are), with the empty string for a missing cell,
  and the placeholder \<open>"-"\<close> when no column is renamed to it; so on the projection of a
  file by a mapping's headers, as both callers pass it, every field outside the mapping's
  image holds \<open>"-"\<close> in every record, and a missing cell of a mapped column gives the
  empty string, not the placeholder.
\<close>

theorem normalized_records:
  assumes "wellformed df"
  shows "\<exists>recs. normalize_records m df = Inr recs \<and> length recs = length (rows df)
     \<and> (\<forall>i < length (rows df).
           dict_keys (recs ! i) = map LStr (dict_keys schema_mapping)
         \<and> (\<forall>c \<in> set (dict_keys schema_mapping).
               dict_get (recs ! i) (LStr c) =
                 Some (case source_column m (columns df) c of
                         None \<Rightarrow> CStr ''-''
                       | Some j \<Rightarrow> filled (rows df ! i ! j))
             \<and> (set (columns df) \<subseteq> set (dict_keys m) \<and> c \<notin> set (dict_values m) \<longrightarrow>
                  dict_get (recs ! i) (LStr c) = Some (CStr ''-''))
             \<and> (\<forall>j. source_column m (columns df) c = Some j \<and> isna (rows df ! i ! j) \<longrightarrow>
                  dict_get (recs ! i) (LStr c) = Some (CStr []))))"
  using assms by (rule normalized_records_char)

theorem normalized_records_witness:
  "\<exists>recs. normalize_records correction_mapping correction_frame = Inr recs
     \<and> length recs = 2
     \<and> dict_keys (recs ! 1) = map LStr (dict_keys schema_mapping)
     \<and> dict_get (recs ! 1) (LStr ''Innings'') = Some (CStr ''-'')
     \<and> dict_get (recs ! 1) (LStr ''Matches'') = Some (CStr [])
     \<and> dict_get (recs ! 0) (LStr ''Matches'') = Some (CInt 3)"
proof -
  have wf: "wellformed correction_frame"
    by code_simp
  have len: "length (rows correction_frame) = 2"
    by (simp add: correction_frame_def)
  have k: "''Innings'' \<in> set (dict_keys schema_mapping)"
    "''Matches'' \<in> set (dict_keys schema_mapping)"
    unfolding schema_keys by simp_all
  have proj: "set (columns correction_frame) \<subseteq> set (dict_keys correction_mapping)
      \<and> ''Innings'' \<notin> set (dict_values correction_mapping)"
    by (simp add: correction_frame_def correction_mapping_def dict_keys_def dict_values_def)
  have src: "source_column correction_mapping (columns correction_frame) ''Matches'' = Some 2"
    by code_simp
  have na: "isna (rows correction_frame ! 1 ! 2)"
    by code_simp
  have fl: "filled (rows correction_frame ! 0 ! 2) = CInt 3"
    by code_simp
  from normalized_records [OF wf, of correction_mapping] obtain recs where
    n: "normalize_records correction_mapping correction_frame = Inr recs"
    and l: "length recs = length (rows correction_frame)"
    and each: "\<forall>i < length (rows correction_frame).
           dict_keys (recs ! i) = map LStr (dict_keys schema_mapping)
         \<and> (\<forall>c \<in> set (dict_keys schema_mapping).
               dict_get (recs ! i) (LStr c) =
                 Some (case source_column correction_mapping (columns correction_frame) c of
                         None \<Rightarrow> CStr ''-''
                       | Some j \<Rightarrow> filled (rows correction_frame ! i ! j))
             \<and> (set (columns correction_frame) \<subseteq> set (dict_keys correction_mapping)
                    \<and> c \<notin> set (dict_values correction_mapping) \<longrightarrow>
                  dict_get (recs ! i) (LStr c) = Some (CStr ''-''))
             \<and> (\<forall>j. source_column correction_mapping (columns correction_frame) c = Some j
                    \<and> isna (rows correction_frame ! i ! j) \<longrightarrow>
                  dict_get (recs ! i) (LStr c) = Some (CStr [])))"
    by blast
  have one: "1 < length (rows correction_frame)" and zero: "0 < length (rows correction_frame)"
    by (simp_all add: len)
  note r1 = each [rule_format, OF one] and r0 = each [rule_format, OF zero]
  from r1 have e1: "dict_keys (recs ! 1) = map LStr (dict_keys schema_mapping)"
    by (rule conjunct1)
  note f1 = r1 [THEN conjunct2, rule_format, OF k(1)]
    and f2 = r1 [THEN conjunct2, rule_format, OF k(2)]
    and f0 = r0 [THEN conjunct2, rule_format, OF k(2)]
  from f1 [THEN conjunct2, THEN conjunct1] proj
  have i1: "dict_get (recs ! 1) (LStr ''Innings'') = Some (CStr ''-'')"
    by blast
  from f2 [THEN conjunct2, THEN conjunct2, rule_format, of 2] src na
  have m1: "dict_get (recs ! 1) (LStr ''Matches'') = Some (CStr [])"
    by blast
  from f0 [THEN conjunct1]
  have m0: "dict_get (recs ! 0) (LStr ''Matches'') = Some (CInt 3)"
    by (simp only: src option.case fl)
  from l len have l2: "length recs = 2"
    by simp
  show ?thesis
    by (intro exI [of _ recs] conjI n l2 e1 i1 m1 m0)
qed

end
